theory Spec2Isabelle
  imports Main "HOL-Library.Sublist"
begin

section \<open>Exceptions\<close>

text \<open>
  Python exceptions are values. The class is kept as far as the handlers of the
  repository tell classes apart: \<open>except FileNotFoundError\<close>, \<open>except ImportError\<close> and
  \<open>except Exception\<close>. \<open>KeyboardInterrupt\<close> and \<open>SystemExit\<close> derive from
  \<open>BaseException\<close> only, so \<open>except Exception\<close> does not catch them. \<open>OtherError n\<close> is
  any further class \<open>n\<close> deriving from \<open>Exception\<close>. \<open>str_exc e\<close> is what \<open>str(e)\<close> does: it
  returns a string, or raises when the \<open>__str__\<close> of the exception raises.
\<close>

datatype exc_class =
    FileNotFoundError | FileExistsError | NotADirectoryError
  | ImportError | IndexError | RuntimeError | ValueError
  | KeyboardInterrupt | SystemExit
  | OtherError string

datatype exc = Exc (cls: exc_class) (str_exc: "exc + string")

fun isinstance_FileNotFoundError :: "exc \<Rightarrow> bool" where
  "isinstance_FileNotFoundError (Exc c m) = (c = FileNotFoundError)"

fun isinstance_ImportError :: "exc \<Rightarrow> bool" where
  "isinstance_ImportError (Exc c m) = (c = ImportError)"

fun isinstance_Exception :: "exc \<Rightarrow> bool" where
  "isinstance_Exception (Exc c m) = (c \<noteq> KeyboardInterrupt \<and> c \<noteq> SystemExit)"


section \<open>fl_utils/compat.py\<close>

text \<open>
  The fallback \<open>find_pruneable_heads_and_indices\<close>. The mask \<open>torch.ones(n_heads, head_dim)\<close>
  is a list of \<open>n_heads\<close> rows of \<open>head_dim\<close> entries; an entry is \<open>True\<close> where the
  tensor holds 1. \<open>torch.ones\<close> refuses a negative dimension with a RuntimeError.
\<close>

type_synonym mask = "bool list list"

definition torch_ones :: "int \<Rightarrow> int \<Rightarrow> exc + mask" where
  "torch_ones n d =
     (if n < 0 \<or> d < 0
      then Inl (Exc RuntimeError (Inr ''Trying to create tensor with negative dimension''))
      else Inr (replicate (nat n) (replicate (nat d) True)))"

text \<open>
  \<open>mask[head] = 0\<close>: indexing the first dimension with a Python int. A negative index
  counts from the end; an index outside \<open>[-n, n)\<close> raises IndexError.
\<close>

definition zero_row :: "mask \<Rightarrow> int \<Rightarrow> exc + mask" where
  "zero_row m head =
     (let n = int (length m);
          j = (if head < 0 then head + n else head)
      in if 0 \<le> j \<and> j < n
         then Inr (m[nat j := map (\<lambda>_. False) (m ! nat j)])
         else Inl (Exc IndexError (Inr ''index is out of bounds for dimension 0'')))"

text \<open>\<open>for head in heads_to_prune: mask[head] = 0\<close>\<close>

fun zero_rows :: "mask \<Rightarrow> int list \<Rightarrow> exc + mask" where
  "zero_rows m [] = Inr m"
| "zero_rows m (h # hs) =
     (case zero_row m h of Inl e \<Rightarrow> Inl e | Inr m' \<Rightarrow> zero_rows m' hs)"

text \<open>
  \<open>torch.arange(len(mask))[mask].long()\<close> on the flattened mask: the positions that
  still hold 1, in increasing order.
\<close>

definition masked_arange :: "bool list \<Rightarrow> int list" where
  "masked_arange flat = map int (filter (\<lambda>i. flat ! i) [0..<length flat])"

text \<open>
  \<open>heads_to_prune = set(heads) - already_pruned_heads\<close> is a Python set. The loop visits
  its elements in an order Python does not specify; the model visits them in the order
  of their first occurrence in \<open>heads\<close> (\<open>zero_rows_set\<close> below shows the order does
  not matter). The function returns the set itself.
\<close>

definition heads_to_prune_list :: "int list \<Rightarrow> int set \<Rightarrow> int list" where
  "heads_to_prune_list heads already_pruned_heads =
     remdups (filter (\<lambda>h. h \<notin> already_pruned_heads) heads)"

definition find_pruneable_heads_and_indices ::
  "int list \<Rightarrow> int \<Rightarrow> int \<Rightarrow> int set \<Rightarrow> exc + (int set \<times> int list)" where
  "find_pruneable_heads_and_indices heads n_heads head_dim already_pruned_heads =
     (case torch_ones n_heads head_dim of
        Inl e \<Rightarrow> Inl e
      | Inr mask0 \<Rightarrow>
          let heads_to_prune = heads_to_prune_list heads already_pruned_heads in
          (case zero_rows mask0 heads_to_prune of
             Inl e \<Rightarrow> Inl e
           | Inr mask1 \<Rightarrow> Inr (set heads_to_prune, masked_arange (concat mask1))))"

text \<open>
  \<open>get_find_pruneable_heads_and_indices\<close>: the \<open>try\<close> imports the function from
  \<open>transformers.pytorch_utils\<close>. The outcome of that import statement is a parameter:
  the imported function, or the exception the import raised. Only ImportError is
  caught.
\<close>

type_synonym pruner = "int list \<Rightarrow> int \<Rightarrow> int \<Rightarrow> int set \<Rightarrow> exc + (int set \<times> int list)"

definition get_find_pruneable_heads_and_indices :: "(exc + pruner) \<Rightarrow> exc + pruner" where
  "get_find_pruneable_heads_and_indices import_result =
     (case import_result of
        Inr f \<Rightarrow> Inr f
      | Inl e \<Rightarrow> if isinstance_ImportError e
                 then Inr find_pruneable_heads_and_indices
                 else Inl e)"

section \<open>fl_utils/paths.py\<close>

subsection \<open>Paths\<close>

text \<open>
  A \<open>pathlib.Path\<close> (POSIX flavour) is its anchor (the empty string for a relative
  path, one slash, or two slashes, which POSIX keeps apart) and its list of components.
  Building a path from a string splits it at the slashes and drops empty and \<open>.\<close>
  components; \<open>..\<close> is kept as a component, as pathlib keeps it.
\<close>

datatype path = Path (anchor: string) (parts: "string list")

fun split_sep :: "string \<Rightarrow> string list" where
  "split_sep [] = [[]]"
| "split_sep (c # cs) =
     (if c = CHR ''/'' then [] # split_sep cs
      else (case split_sep cs of [] \<Rightarrow> [[c]] | w # ws \<Rightarrow> (c # w) # ws))"

definition anchor_of :: "string \<Rightarrow> string" where
  "anchor_of s =
     (if take 2 s = ''//'' \<and> take 3 s \<noteq> ''///'' then ''//''
      else if take 1 s = ''/'' then ''/''
      else [])"

definition parts_of :: "string \<Rightarrow> string list" where
  "parts_of s = filter (\<lambda>w. w \<noteq> [] \<and> w \<noteq> ''.'') (split_sep s)"

text \<open>\<open>Path(s)\<close>\<close>

definition path_of :: "string \<Rightarrow> path" where
  "path_of s = Path (anchor_of s) (parts_of s)"

text \<open>\<open>p / s\<close>: an absolute right operand replaces the left one.\<close>

definition joinpath :: "path \<Rightarrow> string \<Rightarrow> path" where
  "joinpath p s =
     (if anchor_of s \<noteq> [] then path_of s
      else Path (anchor p) (parts p @ parts_of s))"

text \<open>\<open>p.parent\<close>: the parent of an anchor or of the empty path is the path itself.\<close>

definition parent :: "path \<Rightarrow> path" where
  "parent p = Path (anchor p) (butlast (parts p))"

text \<open>\<open>p.name\<close>: the last component, or the empty string.\<close>

definition name :: "path \<Rightarrow> string" where
  "name p = (if parts p = [] then [] else last (parts p))"

fun join_sep :: "string list \<Rightarrow> string" where
  "join_sep [] = []"
| "join_sep [w] = w"
| "join_sep (w # v # ws) = w @ ''/'' @ join_sep (v # ws)"

text \<open>\<open>str(p)\<close>\<close>

definition str_path :: "path \<Rightarrow> string" where
  "str_path p =
     (if anchor p = [] \<and> parts p = [] then ''.''
      else anchor p @ join_sep (parts p))"

text \<open>\<open>p.relative_to(q)\<close> raises ValueError unless \<open>q\<close> is a leading part of \<open>p\<close>.\<close>

definition relative_to :: "path \<Rightarrow> path \<Rightarrow> exc + path" where
  "relative_to p q =
     (if anchor p = anchor q \<and> prefix (parts q) (parts p)
      then Inr (Path [] (drop (length (parts q)) (parts p)))
      else Inl (Exc ValueError (Inr ''path is not in the subpath'')))"

subsection \<open>The file system\<close>

text \<open>
  The file system is what \<open>stat\<close> answers for a path: nothing, a regular file, or a
  directory. Paths are compared by their components: \<open>..\<close> and symbolic links are not
  resolved, so two spellings of one directory are two keys.
\<close>

datatype kind = File | Dir

type_synonym filesystem = "path \<Rightarrow> kind option"

definition exists_path :: "filesystem \<Rightarrow> path \<Rightarrow> bool" where
  "exists_path fs p = (fs p \<noteq> None)"

definition is_dir :: "filesystem \<Rightarrow> path \<Rightarrow> bool" where
  "is_dir fs p = (fs p = Some Dir)"

text \<open>The path itself and everything above it, the anchor first.\<close>

definition lineage :: "path \<Rightarrow> path list" where
  "lineage p = map (Path (anchor p)) (prefixes (parts p))"

text \<open>
  \<open>p.mkdir(parents=True, exist_ok=True)\<close>, as pathlib documents it: every missing
  directory of the lineage of \<open>p\<close> is created, a directory that exists is left alone.
  The call fails at the first member of the lineage that is a regular file: with
  NotADirectoryError above \<open>p\<close>, with FileExistsError at \<open>p\<close> itself (\<open>exist_ok\<close> only
  forgives a directory). A failing call creates nothing.
\<close>

definition mkdir_parents_exist_ok :: "filesystem \<Rightarrow> path \<Rightarrow> exc + filesystem" where
  "mkdir_parents_exist_ok fs p =
     (case find (\<lambda>q. fs q = Some File) (lineage p) of
        Some q \<Rightarrow>
          if q = p then Inl (Exc FileExistsError (Inr (str_path p)))
          else Inl (Exc NotADirectoryError (Inr (str_path p)))
      | None \<Rightarrow> Inr (\<lambda>q. if q \<in> set (lineage p) then Some Dir else fs q))"

subsection \<open>The functions of paths.py\<close>

text \<open>
  \<open>module_file\<close> is \<open>Path(__file__)\<close>, the location of \<open>fl_utils/paths.py\<close> in the
  installation. A function that touches the file system takes it and returns it.
\<close>

definition get_comfyui_root :: "path \<Rightarrow> path" where
  "get_comfyui_root module_file =
     (let current_dir = parent module_file;
          comfyui_root = parent (parent (parent current_dir))
      in comfyui_root)"

definition get_package_root :: "path \<Rightarrow> path" where
  "get_package_root module_file = parent (parent module_file)"

definition get_songgen_models_dir :: "path \<Rightarrow> filesystem \<Rightarrow> exc + (path \<times> filesystem)" where
  "get_songgen_models_dir module_file fs =
     (let models_dir = joinpath (joinpath (get_comfyui_root module_file) ''models'') ''songgen''
      in case mkdir_parents_exist_ok fs models_dir of
           Inl e \<Rightarrow> Inl e
         | Inr fs' \<Rightarrow> Inr (models_dir, fs'))"

definition get_model_variant_dir ::
  "path \<Rightarrow> string \<Rightarrow> filesystem \<Rightarrow> exc + (path \<times> filesystem)" where
  "get_model_variant_dir module_file variant fs =
     (case get_songgen_models_dir module_file fs of
        Inl e \<Rightarrow> Inl e
      | Inr (models_dir, fs1) \<Rightarrow>
          (let p = joinpath models_dir variant
           in (case mkdir_parents_exist_ok fs1 p of
                 Inl e \<Rightarrow> Inl e
               | Inr fs2 \<Rightarrow> Inr (p, fs2))))"

definition get_checkpoints_dir :: "path \<Rightarrow> filesystem \<Rightarrow> exc + (path \<times> filesystem)" where
  "get_checkpoints_dir module_file fs =
     (case get_songgen_models_dir module_file fs of
        Inl e \<Rightarrow> Inl e
      | Inr (models_dir, fs') \<Rightarrow> Inr (joinpath models_dir ''ckpt'', fs'))"

definition get_bundled_codeclm_path :: "path \<Rightarrow> path" where
  "get_bundled_codeclm_path module_file = joinpath (get_package_root module_file) ''codeclm''"

definition get_bundled_third_party_path :: "path \<Rightarrow> path" where
  "get_bundled_third_party_path module_file =
     joinpath (get_package_root module_file) ''third_party''"

text \<open>
  \<open>setup_bundled_imports\<close>: \<open>sys.path\<close> is a list of strings; \<open>sys.path.insert(0, path)\<close>
  puts \<open>path\<close> in front.
\<close>

definition paths_to_add :: "path \<Rightarrow> string list" where
  "paths_to_add module_file =
     (let package_root = get_package_root module_file in
      [ str_path package_root,
        str_path (joinpath package_root ''codeclm''),
        str_path (joinpath (joinpath (joinpath package_root ''codeclm'') ''tokenizer'')
                           ''Flow1dVAE''),
        str_path (joinpath package_root ''third_party'') ])"

fun add_paths :: "filesystem \<Rightarrow> string list \<Rightarrow> string list \<Rightarrow> string list" where
  "add_paths fs [] sys_path = sys_path"
| "add_paths fs (p # ps) sys_path =
     (if p \<notin> set sys_path \<and> exists_path fs (path_of p)
      then add_paths fs ps (p # sys_path)
      else add_paths fs ps sys_path)"

definition setup_bundled_imports :: "path \<Rightarrow> filesystem \<Rightarrow> string list \<Rightarrow> string list" where
  "setup_bundled_imports module_file fs sys_path =
     add_paths fs (paths_to_add module_file) sys_path"

text \<open>The dict the three checks return.\<close>

record check_result =
  exists_flag :: bool
  missing :: "string list"
  path_entry :: path

text \<open>
  \<open>check_bundled_files\<close>: the loop appends \<open>str(d.relative_to(package_root))\<close> for every
  required directory that does not exist.
\<close>

definition required_dirs :: "path \<Rightarrow> path list" where
  "required_dirs package_root =
     [ joinpath package_root ''codeclm'',
       joinpath (joinpath package_root ''codeclm'') ''models'',
       joinpath (joinpath package_root ''codeclm'') ''tokenizer'',
       joinpath package_root ''third_party'',
       joinpath (joinpath package_root ''third_party'') ''stable_audio_tools'',
       joinpath (joinpath package_root ''third_party'') ''demucs'' ]"

fun missing_dirs :: "filesystem \<Rightarrow> path \<Rightarrow> path list \<Rightarrow> string list \<Rightarrow> exc + string list" where
  "missing_dirs fs package_root [] acc = Inr acc"
| "missing_dirs fs package_root (d # ds) acc =
     (if \<not> exists_path fs d
      then (case relative_to d package_root of
              Inl e \<Rightarrow> Inl e
            | Inr r \<Rightarrow> missing_dirs fs package_root ds (acc @ [str_path r]))
      else missing_dirs fs package_root ds acc)"

definition check_bundled_files :: "path \<Rightarrow> filesystem \<Rightarrow> exc + check_result" where
  "check_bundled_files module_file fs =
     (let package_root = get_package_root module_file in
      case missing_dirs fs package_root (required_dirs package_root) [] of
        Inl e \<Rightarrow> Inl e
      | Inr m \<Rightarrow>
          Inr \<lparr> exists_flag = (length m = 0), missing = m, path_entry = package_root \<rparr>)"

text \<open>\<open>check_checkpoint_files\<close>: the loop appends \<open>item.name\<close>.\<close>

definition required_items :: "path \<Rightarrow> path list" where
  "required_items ckpt_dir =
     [ joinpath ckpt_dir ''model_1rvq'',
       joinpath ckpt_dir ''model_septoken'',
       joinpath ckpt_dir ''vae'' ]"

fun missing_items :: "filesystem \<Rightarrow> path list \<Rightarrow> string list \<Rightarrow> string list" where
  "missing_items fs [] acc = acc"
| "missing_items fs (item # items) acc =
     (if \<not> exists_path fs item
      then missing_items fs items (acc @ [name item])
      else missing_items fs items acc)"

definition check_checkpoint_files ::
  "path \<Rightarrow> filesystem \<Rightarrow> exc + (check_result \<times> filesystem)" where
  "check_checkpoint_files module_file fs =
     (case get_checkpoints_dir module_file fs of
        Inl e \<Rightarrow> Inl e
      | Inr (ckpt_dir, fs') \<Rightarrow>
          let m = missing_items fs' (required_items ckpt_dir) []
          in Inr (\<lparr> exists_flag = (length m = 0), missing = m, path_entry = ckpt_dir \<rparr>, fs'))"

text \<open>\<open>check_model_files\<close>: the loop appends the file name \<open>f\<close>.\<close>

definition required_files :: "string list" where
  "required_files = [''config.yaml'', ''model.pt'']"

fun missing_files :: "filesystem \<Rightarrow> path \<Rightarrow> string list \<Rightarrow> string list \<Rightarrow> string list" where
  "missing_files fs variant_dir [] acc = acc"
| "missing_files fs variant_dir (f # rest) acc =
     (if \<not> exists_path fs (joinpath variant_dir f)
      then missing_files fs variant_dir rest (acc @ [f])
      else missing_files fs variant_dir rest acc)"

definition check_model_files ::
  "path \<Rightarrow> string \<Rightarrow> filesystem \<Rightarrow> exc + (check_result \<times> filesystem)" where
  "check_model_files module_file variant fs =
     (case get_model_variant_dir module_file variant fs of
        Inl e \<Rightarrow> Inl e
      | Inr (variant_dir, fs') \<Rightarrow>
          let m = missing_files fs' variant_dir required_files []
          in Inr (\<lparr> exists_flag = (length m = 0), missing = m, path_entry = variant_dir \<rparr>, fs'))"

section \<open>fl_nodes/model_loader.py\<close>

subsection \<open>Values and console output\<close>

text \<open>
  The values the node stores or prints without looking inside: \<open>PyObj r\<close> is any other
  object, known by what \<open>str\<close> gives for it.
\<close>

datatype pyval = PyBool bool | PyInt int | PyStr string | PyObj string

function str_nat :: "nat \<Rightarrow> string" where
  "str_nat n =
     (if n < 10 then [''0123456789'' ! n]
      else str_nat (n div 10) @ [''0123456789'' ! (n mod 10)])"
  by pat_completeness auto
termination
  by (relation "measure (\<lambda>n. n)") auto

definition str_int :: "int \<Rightarrow> string" where
  "str_int i = (if i < 0 then ''-'' @ str_nat (nat (- i)) else str_nat (nat i))"

fun py_str :: "pyval \<Rightarrow> string" where
  "py_str (PyBool b) = (if b then ''True'' else ''False'')"
| "py_str (PyInt i) = str_int i"
| "py_str (PyStr s) = s"
| "py_str (PyObj r) = r"

text \<open>\<open>sep.join(ws)\<close>\<close>

fun join_with :: "string \<Rightarrow> string list \<Rightarrow> string" where
  "join_with sep [] = []"
| "join_with sep [w] = w"
| "join_with sep (w # v # ws) = w @ sep @ join_with sep (v # ws)"

definition nl :: string where
  "nl = [CHR 0x0A]"

text \<open>\<open>'='*60\<close>\<close>

definition rule60 :: string where
  "rule60 = replicate 60 (CHR ''='')"

subsection \<open>The collaborators\<close>

text \<open>
  \<open>fl_utils/model_manager.py\<close> and \<open>comfy.utils.ProgressBar\<close> are not part of the
  sources at hand; the node reaches them through the names it imports. They are
  parameters, at the types the node uses them at. A float is kept as its rendering
  under the format \<open>.1f\<close>, the only use the node makes of it.
\<close>

datatype pyfloat = PyFloat (format_1f: string)

record variant_info =
  description :: string
  max_duration :: int
  languages :: "string list"
  vram_low :: pyval
  vram_normal :: pyval

type_synonym model_info = "string \<rightharpoonup> pyval"

text \<open>The keyword arguments of the call of the collaborator \<open>load_model\<close>.\<close>

record load_args =
  arg_variant :: string
  arg_low_mem :: bool
  arg_use_flash_attn :: bool
  arg_force_reload :: bool

text \<open>
  What the node does to the outside, in order: a line printed, a collaborator called,
  the progress bar built (\<open>ProgressBar(total)\<close>) or moved (\<open>pbar.update_absolute(v)\<close>).
\<close>

datatype event =
    Print string
  | Call_get_recommended_memory_mode string
  | Call_get_available_vram_gb
  | Call_get_variant_info string
  | ProgressBar_init int
  | Call_load_model load_args
  | Update_absolute int

text \<open>
  A collaborator returns a value or raises. The collaborator \<open>load_model\<close> also calls
  the \<open>progress_callback\<close> it is given: its behaviour is the list of the pairs
  \<open>(current, total)\<close> it calls the callback with, in order, and then its outcome.

  \<open>print\<close> writes to the standard output, which belongs to the host as well: a write
  returns (\<open>None\<close>) or raises (\<open>Some x\<close>), for instance on a line the stream cannot
  encode or on a closed stream. \<open>stdout_write env tr s\<close> is what writing the line \<open>s\<close>
  does once the invocation has done \<open>tr\<close>.
\<close>

record collaborators =
  get_variant_list :: "string list"
  get_recommended_memory_mode :: "string \<Rightarrow> exc + string"
  get_available_vram_gb :: "exc + pyfloat"
  get_variant_info :: "string \<Rightarrow> exc + variant_info"
  load_model :: "load_args \<Rightarrow> (int \<times> int) list \<times> (exc + model_info)"
  stdout_write :: "event list \<Rightarrow> string \<Rightarrow> exc option"

subsection \<open>The node\<close>

definition MEMORY_MODES :: "string list" where
  "MEMORY_MODES = [''auto'', ''normal'', ''low'', ''ultra'']"

definition RETURN_TYPES :: "string list" where
  "RETURN_TYPES = [''SONGGEN_MODEL'']"

definition RETURN_NAMES :: "string list" where
  "RETURN_NAMES = [''model'']"

text \<open>
  Every function of the node takes the trace \<open>tr\<close> of what the invocation has done so
  far and returns its outcome with the events it adds.

  A run of \<open>print\<close> statements, one line each: the first write that raises ends the
  run with that exception, after the lines printed before it.
\<close>

fun prints :: "collaborators \<Rightarrow> event list \<Rightarrow> string list \<Rightarrow> (exc + unit) \<times> event list" where
  "prints env tr [] = (Inr (), [])"
| "prints env tr (s # ss) =
     (case stdout_write env tr s of
        Some x \<Rightarrow> (Inl x, [])
      | None \<Rightarrow> (case prints env (tr @ [Print s]) ss of (r, out) \<Rightarrow> (r, Print s # out)))"

text \<open>Lines 101 to 107: resolving the memory mode.\<close>

definition resolve_memory_mode ::
  "collaborators \<Rightarrow> event list \<Rightarrow> string \<Rightarrow> string \<Rightarrow> (exc + string) \<times> event list" where
  "resolve_memory_mode env tr model_variant memory_mode =
     (if memory_mode = ''auto'' then
        (case get_recommended_memory_mode env model_variant of
           Inl e \<Rightarrow> (Inl e, [Call_get_recommended_memory_mode model_variant])
         | Inr resolved_mode \<Rightarrow>
             (case get_available_vram_gb env of
                Inl e \<Rightarrow>
                  (Inl e, [Call_get_recommended_memory_mode model_variant,
                           Call_get_available_vram_gb])
              | Inr available_vram \<Rightarrow>
                  (case prints env (tr @ [Call_get_recommended_memory_mode model_variant,
                                          Call_get_available_vram_gb])
                          [''[FL SongGen] Auto-detected memory mode: '' @ resolved_mode
                           @ '' (available VRAM: '' @ format_1f available_vram @ ''GB)''] of
                     (Inl e, out) \<Rightarrow>
                       (Inl e, [Call_get_recommended_memory_mode model_variant,
                                Call_get_available_vram_gb] @ out)
                   | (Inr u, out) \<Rightarrow>
                       (Inr resolved_mode,
                        [Call_get_recommended_memory_mode model_variant,
                         Call_get_available_vram_gb] @ out))))
      else (Inr memory_mode, []))"

text \<open>Lines 109 to 111: the two flags.\<close>

definition low_mem_of :: "string \<Rightarrow> bool" where
  "low_mem_of resolved_mode = (resolved_mode \<in> set [''low'', ''ultra_low_mem'', ''low_mem''])"

definition ultra_low_mem_of :: "string \<Rightarrow> bool" where
  "ultra_low_mem_of resolved_mode = (resolved_mode \<in> set [''ultra'', ''ultra_low_mem''])"

text \<open>Lines 113 to 129: the banner.\<close>

definition banner_lines :: "string \<Rightarrow> variant_info \<Rightarrow> string \<Rightarrow> bool \<Rightarrow> bool \<Rightarrow> string list" where
  "banner_lines model_variant info resolved_mode low_mem ultra_low_mem =
     [nl @ rule60,
      ''[FL SongGen] Loading Model'',
      rule60,
      ''Variant: '' @ model_variant,
      ''Description: '' @ description info,
      ''Max Duration: '' @ str_int (max_duration info) @ ''s (''
        @ str_int (max_duration info div 60) @ ''m ''
        @ str_int (max_duration info mod 60) @ ''s)'',
      ''Languages: '' @ join_with '', '' (languages info),
      ''Memory Mode: '' @ resolved_mode,
      (if ultra_low_mem then ''VRAM Required: ~6GB (ultra low memory mode)''
       else if low_mem then ''VRAM Required: '' @ py_str (vram_low info) @ ''GB''
       else ''VRAM Required: '' @ py_str (vram_normal info) @ ''GB''),
      rule60 @ nl]"

definition log_banner ::
  "collaborators \<Rightarrow> event list \<Rightarrow> string \<Rightarrow> string \<Rightarrow> bool \<Rightarrow> bool \<Rightarrow> (exc + unit) \<times> event list" where
  "log_banner env tr model_variant resolved_mode low_mem ultra_low_mem =
     (case get_variant_info env model_variant of
        Inl e \<Rightarrow> (Inl e, [Call_get_variant_info model_variant])
      | Inr info \<Rightarrow>
          (case prints env (tr @ [Call_get_variant_info model_variant])
                  (banner_lines model_variant info resolved_mode low_mem ultra_low_mem) of
             (r, out) \<Rightarrow> (r, Call_get_variant_info model_variant # out)))"

text \<open>Lines 135 and 136: the callback.\<close>

definition progress_callback :: "int \<Rightarrow> int \<Rightarrow> event list" where
  "progress_callback current total' = [Update_absolute current]"

text \<open>Lines 153 to 160: the lines the handler of FileNotFoundError prints.\<close>

definition not_found_hint :: "string \<Rightarrow> string list" where
  "not_found_hint model_variant =
     [nl @ rule60,
      ''[FL SongGen] ERROR: Model files not found!'',
      rule60,
      ''Please download the model from HuggingFace:'',
      ''https://huggingface.co/aslp-lab/SongGeneration'',
      nl @ ''Expected location: ComfyUI/models/songgen/'' @ model_variant @ ''/'',
      ''Required files: config.yaml, model.pt'',
      rule60 @ nl]"

text \<open>
  Lines 152 to 165: the two \<open>except\<close> clauses, for an exception \<open>e\<close> raised in the body of
  the \<open>try\<close>. The result is the exception that leaves the statement: \<open>e\<close> itself after
  \<open>raise e\<close>, or the exception a \<open>print\<close> or the formatting of \<open>e\<close> raised inside the
  handler. An exception that neither clause matches leaves as it is.
\<close>

definition except_clauses ::
  "collaborators \<Rightarrow> event list \<Rightarrow> string \<Rightarrow> exc \<Rightarrow> exc \<times> event list" where
  "except_clauses env tr model_variant e =
     (if isinstance_FileNotFoundError e then
        (case prints env tr (not_found_hint model_variant) of
           (Inl x, out) \<Rightarrow> (x, out)
         | (Inr u, out) \<Rightarrow> (e, out))
      else if isinstance_Exception e then
        (case str_exc e of
           Inl x \<Rightarrow> (x, [])
         | Inr m \<Rightarrow>
             (case prints env tr [''[FL SongGen] ERROR loading model: '' @ m] of
                (Inl x, out) \<Rightarrow> (x, out)
              | (Inr u, out) \<Rightarrow> (e, out)))
      else (e, []))"

text \<open>
  Lines 131 to 165: the \<open>try\<close> statement. The \<open>print\<close> of line 149 is in its body, so what
  it raises goes through the \<open>except\<close> clauses too. The node returns a tuple of one
  element, a list of length one here.
\<close>

definition try_load ::
  "collaborators \<Rightarrow> event list \<Rightarrow> string \<Rightarrow> bool \<Rightarrow> bool \<Rightarrow> bool
     \<Rightarrow> (exc + model_info list) \<times> event list" where
  "try_load env tr model_variant low_mem ultra_low_mem force_reload =
     (let args = \<lparr> arg_variant = model_variant,
                   arg_low_mem = (low_mem \<or> ultra_low_mem),
                   arg_use_flash_attn = False,
                   arg_force_reload = force_reload \<rparr>;
          calls = fst (load_model env args);
          outcome = snd (load_model env args);
          evs = [ProgressBar_init 4, Call_load_model args]
                @ concat (map (\<lambda>(current, total'). progress_callback current total') calls)
      in (case outcome of
            Inr model_info \<Rightarrow>
              (case prints env (tr @ evs) [''[FL SongGen] Model loaded successfully!''] of
                 (Inr u, out) \<Rightarrow>
                   (Inr [model_info(''ultra_low_mem'' \<mapsto> PyBool ultra_low_mem)], evs @ out)
               | (Inl x, out) \<Rightarrow>
                   (case except_clauses env (tr @ evs @ out) model_variant x of
                      (x', out') \<Rightarrow> (Inl x', evs @ out @ out')))
          | Inl e \<Rightarrow>
              (case except_clauses env (tr @ evs) model_variant e of
                 (x', out') \<Rightarrow> (Inl x', evs @ out'))))"

text \<open>The method \<open>FL_SongGen_ModelLoader.load_model\<close>; the trace starts empty.\<close>

definition FL_SongGen_ModelLoader_load_model ::
  "collaborators \<Rightarrow> string \<Rightarrow> string \<Rightarrow> bool \<Rightarrow> (exc + model_info list) \<times> event list" where
  "FL_SongGen_ModelLoader_load_model env model_variant memory_mode force_reload =
     (case resolve_memory_mode env [] model_variant memory_mode of
        (Inl e, evs1) \<Rightarrow> (Inl e, evs1)
      | (Inr resolved_mode, evs1) \<Rightarrow>
          (let low_mem = low_mem_of resolved_mode;
               ultra_low_mem = ultra_low_mem_of resolved_mode
           in (case log_banner env evs1 model_variant resolved_mode low_mem ultra_low_mem of
                 (Inl e, evs2) \<Rightarrow> (Inl e, evs1 @ evs2)
               | (Inr u, evs2) \<Rightarrow>
                   (case try_load env (evs1 @ evs2) model_variant low_mem ultra_low_mem
                           force_reload of
                      (r, evs3) \<Rightarrow> (r, evs1 @ evs2 @ evs3)))))"

subsection \<open>Reading a trace\<close>

fun load_model_calls :: "event list \<Rightarrow> load_args list" where
  "load_model_calls [] = []"
| "load_model_calls (Call_load_model a # es) = a # load_model_calls es"
| "load_model_calls (_ # es) = load_model_calls es"

fun progress_bars :: "event list \<Rightarrow> int list" where
  "progress_bars [] = []"
| "progress_bars (ProgressBar_init n # es) = n # progress_bars es"
| "progress_bars (_ # es) = progress_bars es"

fun progress_updates :: "event list \<Rightarrow> int list" where
  "progress_updates [] = []"
| "progress_updates (Update_absolute v # es) = v # progress_updates es"
| "progress_updates (_ # es) = progress_updates es"

fun recommendation_calls :: "event list \<Rightarrow> string list" where
  "recommendation_calls [] = []"
| "recommendation_calls (Call_get_recommended_memory_mode v # es) = v # recommendation_calls es"
| "recommendation_calls (_ # es) = recommendation_calls es"

fun printed :: "event list \<Rightarrow> string list" where
  "printed [] = []"
| "printed (Print s # es) = s # printed es"
| "printed (_ # es) = printed es"

text \<open>The keyword arguments the node passes for a resolved mode.\<close>

definition args_for :: "string \<Rightarrow> string \<Rightarrow> bool \<Rightarrow> load_args" where
  "args_for model_variant resolved_mode force_reload =
     \<lparr> arg_variant = model_variant,
       arg_low_mem = (resolved_mode \<in> {''low'', ''low_mem'', ''ultra'', ''ultra_low_mem''}),
       arg_use_flash_attn = False,
       arg_force_reload = force_reload \<rparr>"

subsection \<open>Sample collaborators\<close>

definition base_info :: variant_info where
  "base_info =
     \<lparr> description = ''Base model'',
       max_duration = 150,
       languages = [''en'', ''zh''],
       vram_low = PyInt 10,
       vram_normal = PyInt 16 \<rparr>"

definition base_model :: model_info where
  "base_model = [''variant'' \<mapsto> PyStr ''songgeneration_base'', ''model'' \<mapsto> PyObj ''<model>'']"

text \<open>
  A collaborator set that recommends \<open>ultra\<close>, reports two progress steps and then
  produces \<open>outcome\<close>; every write to the standard output returns.
\<close>

definition sample_env :: "(exc + model_info) \<Rightarrow> collaborators" where
  "sample_env outcome =
     \<lparr> get_variant_list = [''songgeneration_base''],
       get_recommended_memory_mode = (\<lambda>v. Inr ''ultra''),
       get_available_vram_gb = Inr (PyFloat ''7.5''),
       get_variant_info = (\<lambda>v. Inr base_info),
       load_model = (\<lambda>a. ([(1, 4), (2, 9)], outcome)),
       stdout_write = (\<lambda>tr s. None) \<rparr>"

text \<open>
  A standard output with the ASCII encoding: writing a line that holds a character
  beyond 127 raises UnicodeEncodeError.
\<close>

definition ascii_stdout :: "event list \<Rightarrow> string \<Rightarrow> exc option" where
  "ascii_stdout tr s =
     (if list_ex (\<lambda>c. 127 < (of_char c :: nat)) s
      then Some (Exc (OtherError ''UnicodeEncodeError'')
                     (Inr ''ascii codec cannot encode character''))
      else None)"

section \<open>A sample installation\<close>

text \<open>
  A file system given by its directories and its regular files, and the location of
  \<open>fl_utils/paths.py\<close> in an installation under \<open>/ComfyUI\<close>.
\<close>

definition fs_of :: "path list \<Rightarrow> path list \<Rightarrow> filesystem" where
  "fs_of dirs files p =
     (if p \<in> set dirs then Some Dir else if p \<in> set files then Some File else None)"

definition sample_module_file :: path where
  "sample_module_file =
     Path ''/'' [''ComfyUI'', ''custom_nodes'', ''ComfyUI_FL-SongGen'', ''fl_utils'', ''paths.py'']"

definition installed_dirs :: "path list" where
  "installed_dirs =
     [Path ''/'' [],
      Path ''/'' [''ComfyUI''],
      Path ''/'' [''ComfyUI'', ''custom_nodes''],
      Path ''/'' [''ComfyUI'', ''custom_nodes'', ''ComfyUI_FL-SongGen''],
      Path ''/'' [''ComfyUI'', ''custom_nodes'', ''ComfyUI_FL-SongGen'', ''codeclm''],
      Path ''/'' [''ComfyUI'', ''custom_nodes'', ''ComfyUI_FL-SongGen'', ''fl_utils'']]"

definition installed_files :: "path list" where
  "installed_files =
     [Path ''/'' [''ComfyUI'', ''custom_nodes'', ''ComfyUI_FL-SongGen'', ''fl_utils'', ''paths.py'']]"

text \<open>A fresh installation: the package is there, without \<open>third_party\<close>; no model yet.\<close>

definition installed_fs :: filesystem where
  "installed_fs = fs_of installed_dirs installed_files"

text \<open>The same with the model \<open>songgeneration_base\<close> downloaded, but for its \<open>model.pt\<close>.\<close>

definition downloaded_fs :: filesystem where
  "downloaded_fs =
     fs_of (installed_dirs
            @ [Path ''/'' [''ComfyUI'', ''models''],
               Path ''/'' [''ComfyUI'', ''models'', ''songgen''],
               Path ''/'' [''ComfyUI'', ''models'', ''songgen'', ''songgeneration_base''],
               Path ''/'' [''ComfyUI'', ''models'', ''songgen'', ''ckpt''],
               Path ''/'' [''ComfyUI'', ''models'', ''songgen'', ''ckpt'', ''vae'']])
           (installed_files
            @ [Path ''/'' [''ComfyUI'', ''models'', ''songgen'', ''songgeneration_base'',
                           ''config.yaml'']])"

text \<open>The fresh installation where \<open>/ComfyUI/models\<close> is a regular file.\<close>

definition blocked_fs :: filesystem where
  "blocked_fs = fs_of installed_dirs (installed_files @ [Path ''/'' [''ComfyUI'', ''models'']])"

section \<open>Properties of the node\<close>

lemmas node_defs = FL_SongGen_ModelLoader_load_model_def resolve_memory_mode_def log_banner_def
        try_load_def except_clauses_def sample_env_def progress_callback_def low_mem_of_def
        ultra_low_mem_of_def banner_lines_def not_found_hint_def

lemma load_model_calls_append: "load_model_calls (xs @ ys) = load_model_calls xs @ load_model_calls ys"
  by (induction xs rule: load_model_calls.induct) auto

lemma progress_bars_append: "progress_bars (xs @ ys) = progress_bars xs @ progress_bars ys"
  by (induction xs rule: progress_bars.induct) auto

lemma progress_updates_append: "progress_updates (xs @ ys) = progress_updates xs @ progress_updates ys"
  by (induction xs rule: progress_updates.induct) auto

lemma recommendation_calls_append: "recommendation_calls (xs @ ys) = recommendation_calls xs @ recommendation_calls ys"
  by (induction xs rule: recommendation_calls.induct) auto

lemma printed_append: "printed (xs @ ys) = printed xs @ printed ys"
  by (induction xs rule: printed.induct) auto

lemma map_Print_calls:
  "load_model_calls (map Print ss) = []"
  "progress_bars (map Print ss) = []"
  "progress_updates (map Print ss) = []"
  "recommendation_calls (map Print ss) = []"
  "printed (map Print ss) = ss"
  by (induction ss) auto

text \<open>
  A run of prints adds the lines up to the first write that raises: all of them when
  it returns, and otherwise the exception of that write is the outcome.
\<close>

lemma prints_shape:
  "\<exists>k\<le>length ls. snd (prints env tr ls) = map Print (take k ls)
      \<and> (if k = length ls then fst (prints env tr ls) = Inr ()
         else \<exists>x. stdout_write env (tr @ map Print (take k ls)) (ls ! k) = Some x
                \<and> fst (prints env tr ls) = Inl x)"
proof (induction ls arbitrary: tr)
  case Nil
  show ?case by simp
next
  case (Cons s ss)
  show ?case
  proof (cases "stdout_write env tr s")
    case (Some x)
    then show ?thesis by (intro exI[of _ 0]) simp
  next
    case None
    from Cons[of "tr @ [Print s]"] obtain k where k: "k \<le> length ss"
      "snd (prints env (tr @ [Print s]) ss) = map Print (take k ss)"
      "if k = length ss then fst (prints env (tr @ [Print s]) ss) = Inr ()
         else \<exists>x. stdout_write env ((tr @ [Print s]) @ map Print (take k ss)) (ss ! k) = Some x
                \<and> fst (prints env (tr @ [Print s]) ss) = Inl x"
      by blast
    show ?thesis
      using None k by (intro exI[of _ "Suc k"]) (auto split: prod.splits if_splits)
  qed
qed

lemma prints_out: "\<exists>ss. snd (prints env tr ls) = map Print ss"
  using prints_shape[of ls env tr] by blast

lemma prints_returns:
  assumes "prints env tr ls = (Inr u, out)"
  shows "out = map Print ls"
proof -
  from prints_shape[of ls env tr] obtain k where k: "k \<le> length ls"
      "snd (prints env tr ls) = map Print (take k ls)"
      "if k = length ls then fst (prints env tr ls) = Inr ()
         else \<exists>x. stdout_write env (tr @ map Print (take k ls)) (ls ! k) = Some x
                \<and> fst (prints env tr ls) = Inl x"
    by blast
  from k(3) assms have "k = length ls" by (auto split: if_splits)
  with k(2) assms show ?thesis by simp
qed

lemma prints_quiet:
  assumes "\<And>tr s. stdout_write env tr s = None"
  shows "prints env tr ls = (Inr (), map Print ls)"
  by (induction ls arbitrary: tr) (simp_all add: assms)

lemma prints_one:
  "prints env tr [s] = (case stdout_write env tr s of Some x \<Rightarrow> (Inl x, []) | None \<Rightarrow> (Inr (), [Print s]))"
  by (simp split: option.splits)

lemma prints_calls:
  "load_model_calls (snd (prints env tr ls)) = []"
  "progress_bars (snd (prints env tr ls)) = []"
  "progress_updates (snd (prints env tr ls)) = []"
  "recommendation_calls (snd (prints env tr ls)) = []"
proof -
  obtain ss where "snd (prints env tr ls) = map Print ss" using prints_out by blast
  then show "load_model_calls (snd (prints env tr ls)) = []"
    "progress_bars (snd (prints env tr ls)) = []"
    "progress_updates (snd (prints env tr ls)) = []"
    "recommendation_calls (snd (prints env tr ls)) = []"
    by (simp_all add: map_Print_calls)
qed

lemma case_prod_snd: "snd (case p of (a, b) \<Rightarrow> f a b) = snd (f (fst p) (snd p))"
  by (cases p) simp

lemma case_prod_fst: "fst (case p of (a, b) \<Rightarrow> f a b) = fst (f (fst p) (snd p))"
  by (cases p) simp

lemma resolve_out:
  "\<exists>ss. snd (resolve_memory_mode env tr v mm)
          = (if mm = ''auto'' then Call_get_recommended_memory_mode v
                 # (case get_recommended_memory_mode env v of Inl e \<Rightarrow> []
                    | Inr r \<Rightarrow> [Call_get_available_vram_gb]) else [])
            @ map Print ss"
proof (cases "mm = ''auto''")
  case False
  then show ?thesis by (intro exI[of _ "[]"]) (simp add: resolve_memory_mode_def)
next
  case True
  show ?thesis
  proof (cases "get_recommended_memory_mode env v")
    case (Inl e)
    with True show ?thesis by (intro exI[of _ "[]"]) (simp add: resolve_memory_mode_def)
  next
    case (Inr r)
    note r = this
    show ?thesis
    proof (cases "get_available_vram_gb env")
      case (Inl e)
      with True r show ?thesis by (intro exI[of _ "[]"]) (simp add: resolve_memory_mode_def)
    next
      case (Inr a)
      let ?p = "prints env (tr @ [Call_get_recommended_memory_mode v, Call_get_available_vram_gb])
                  [''[FL SongGen] Auto-detected memory mode: '' @ r
                   @ '' (available VRAM: '' @ format_1f a @ ''GB)'']"
      obtain ss where ss: "snd ?p = map Print ss" using prints_out by blast
      obtain q out where q: "?p = (q, out)" by (cases ?p)
      with ss have "out = map Print ss" by simp
      with True r Inr q show ?thesis
        by (intro exI[of _ ss]) (cases q; simp add: resolve_memory_mode_def)
    qed
  qed
qed

lemma resolve_calls:
  "load_model_calls (snd (resolve_memory_mode env tr v mm)) = []"
  "progress_bars (snd (resolve_memory_mode env tr v mm)) = []"
  "progress_updates (snd (resolve_memory_mode env tr v mm)) = []"
  "recommendation_calls (snd (resolve_memory_mode env tr v mm)) = (if mm = ''auto'' then [v] else [])"
proof -
  obtain ss where "snd (resolve_memory_mode env tr v mm)
          = (if mm = ''auto'' then Call_get_recommended_memory_mode v
                 # (case get_recommended_memory_mode env v of Inl e \<Rightarrow> []
                    | Inr r \<Rightarrow> [Call_get_available_vram_gb]) else [])
            @ map Print ss"
    using resolve_out by blast
  then show "load_model_calls (snd (resolve_memory_mode env tr v mm)) = []"
    "progress_bars (snd (resolve_memory_mode env tr v mm)) = []"
    "progress_updates (snd (resolve_memory_mode env tr v mm)) = []"
    "recommendation_calls (snd (resolve_memory_mode env tr v mm)) = (if mm = ''auto'' then [v] else [])"
    by (simp_all add: map_Print_calls load_model_calls_append progress_bars_append
          progress_updates_append recommendation_calls_append split: sum.splits)
qed

lemma banner_out:
  "\<exists>ss. snd (log_banner env tr v r l u) = Call_get_variant_info v # map Print ss"
proof (cases "get_variant_info env v")
  case (Inl e)
  then show ?thesis by (intro exI[of _ "[]"]) (simp add: log_banner_def)
next
  case (Inr info)
  obtain ss where "snd (prints env (tr @ [Call_get_variant_info v]) (banner_lines v info r l u))
                     = map Print ss"
    using prints_out by blast
  with Inr show ?thesis by (intro exI[of _ ss]) (simp add: log_banner_def case_prod_snd)
qed

lemma banner_calls: "load_model_calls (snd (log_banner env tr v r l u)) = []"
  "progress_bars (snd (log_banner env tr v r l u)) = []"
  "progress_updates (snd (log_banner env tr v r l u)) = []"
  "recommendation_calls (snd (log_banner env tr v r l u)) = []"
proof -
  obtain ss where "snd (log_banner env tr v r l u) = Call_get_variant_info v # map Print ss"
    using banner_out by blast
  then show "load_model_calls (snd (log_banner env tr v r l u)) = []"
    "progress_bars (snd (log_banner env tr v r l u)) = []"
    "progress_updates (snd (log_banner env tr v r l u)) = []"
    "recommendation_calls (snd (log_banner env tr v r l u)) = []"
    by (simp_all add: map_Print_calls)
qed

lemma callbacks_updates:
  "concat (map (\<lambda>(c, t). progress_callback c t) cs) = map Update_absolute (map fst cs)"
  by (induction cs) (auto simp: progress_callback_def)

lemma updates_calls:
  "load_model_calls (map Update_absolute vs) = []"
  "progress_bars (map Update_absolute vs) = []"
  "progress_updates (map Update_absolute vs) = vs"
  "recommendation_calls (map Update_absolute vs) = []"
  "printed (map Update_absolute vs) = []"
  by (induction vs) auto

lemma low_or_ultra: "(low_mem_of r \<or> ultra_low_mem_of r) = (r \<in> {''low'', ''low_mem'', ''ultra'', ''ultra_low_mem''})"
  by (auto simp: low_mem_of_def ultra_low_mem_of_def)

text \<open>What the \<open>except\<close> clauses add to the trace is printed lines.\<close>

lemma except_out: "\<exists>ss. snd (except_clauses env tr v e) = map Print ss"
proof -
  obtain s1 where s1: "snd (prints env tr (not_found_hint v)) = map Print s1"
    using prints_out by blast
  have s2: "\<exists>ss. snd (prints env tr [m]) = map Print ss" for m
    using prints_out by blast
  show ?thesis
  proof (cases "isinstance_FileNotFoundError e")
    case True
    obtain q out where q: "prints env tr (not_found_hint v) = (q, out)"
      by (cases "prints env tr (not_found_hint v)")
    with s1 have "out = map Print s1" by simp
    with True q show ?thesis
      by (intro exI[of _ s1]) (cases q; simp add: except_clauses_def)
  next
    case False
    note nf = this
    show ?thesis
    proof (cases "isinstance_Exception e")
      case False
      with nf show ?thesis by (intro exI[of _ "[]"]) (simp add: except_clauses_def)
    next
      case True
      show ?thesis
      proof (cases "str_exc e")
        case (Inl x)
        with nf True show ?thesis by (intro exI[of _ "[]"]) (simp add: except_clauses_def)
      next
        case (Inr m)
        obtain ss where ss: "snd (prints env tr [''[FL SongGen] ERROR loading model: '' @ m]) = map Print ss"
          using s2 by blast
        obtain q out where q: "prints env tr [''[FL SongGen] ERROR loading model: '' @ m] = (q, out)"
          by (cases "prints env tr [''[FL SongGen] ERROR loading model: '' @ m]")
        with ss have "out = map Print ss" by simp
        with nf True Inr q show ?thesis
          by (intro exI[of _ ss]) (cases q; simp add: except_clauses_def)
      qed
    qed
  qed
qed

text \<open>
  The \<open>try\<close> statement builds the bar, calls the collaborator, moves the bar as the
  collaborator reports, and after that only prints.
\<close>

lemma try_load_out:
  "\<exists>ss. snd (try_load env tr v (low_mem_of r) (ultra_low_mem_of r) fr)
          = [ProgressBar_init 4, Call_load_model (args_for v r fr)]
            @ map Update_absolute (map fst (fst (load_model env (args_for v r fr))))
            @ map Print ss"
proof -
  let ?args = "args_for v r fr"
  let ?evs = "[ProgressBar_init 4, Call_load_model ?args]
              @ map Update_absolute (map fst (fst (load_model env ?args)))"
  show ?thesis
  proof (cases "snd (load_model env ?args)")
    case (Inl e)
    obtain ss where "snd (except_clauses env (tr @ ?evs) v e) = map Print ss"
      using except_out by blast
    with Inl show ?thesis
      unfolding try_load_def Let_def low_or_ultra args_for_def[symmetric] callbacks_updates
      by (intro exI[of _ ss]) (simp add: case_prod_snd)
  next
    case (Inr mi)
    let ?p = "prints env (tr @ ?evs) [''[FL SongGen] Model loaded successfully!'']"
    obtain s1 where s1: "snd ?p = map Print s1" using prints_out by blast
    obtain q out where q: "?p = (q, out)" by (cases ?p)
    with s1 have out: "out = map Print s1" by simp
    show ?thesis
    proof (cases q)
      case (Inr u)
      with \<open>snd (load_model env ?args) = Inr mi\<close> q out show ?thesis
        unfolding try_load_def Let_def low_or_ultra args_for_def[symmetric] callbacks_updates
        by (intro exI[of _ s1]) simp
    next
      case (Inl x)
      obtain s2 where "snd (except_clauses env (tr @ ?evs @ out) v x) = map Print s2"
        using except_out by blast
      with Inl \<open>snd (load_model env ?args) = Inr mi\<close> q out show ?thesis
        unfolding try_load_def Let_def low_or_ultra args_for_def[symmetric] callbacks_updates
        by (intro exI[of _ "s1 @ s2"]) (simp add: case_prod_snd)
    qed
  qed
qed

lemma try_load_calls:
  "load_model_calls (snd (try_load env tr v (low_mem_of r) (ultra_low_mem_of r) fr)) = [args_for v r fr]"
  "progress_bars (snd (try_load env tr v (low_mem_of r) (ultra_low_mem_of r) fr)) = [4]"
  "progress_updates (snd (try_load env tr v (low_mem_of r) (ultra_low_mem_of r) fr)) = map fst (fst (load_model env (args_for v r fr)))"
  "recommendation_calls (snd (try_load env tr v (low_mem_of r) (ultra_low_mem_of r) fr)) = []"
proof -
  obtain ss where "snd (try_load env tr v (low_mem_of r) (ultra_low_mem_of r) fr)
          = [ProgressBar_init 4, Call_load_model (args_for v r fr)]
            @ map Update_absolute (map fst (fst (load_model env (args_for v r fr))))
            @ map Print ss"
    using try_load_out by blast
  then show
    "load_model_calls (snd (try_load env tr v (low_mem_of r) (ultra_low_mem_of r) fr)) = [args_for v r fr]"
    "progress_bars (snd (try_load env tr v (low_mem_of r) (ultra_low_mem_of r) fr)) = [4]"
    "progress_updates (snd (try_load env tr v (low_mem_of r) (ultra_low_mem_of r) fr)) = map fst (fst (load_model env (args_for v r fr)))"
    "recommendation_calls (snd (try_load env tr v (low_mem_of r) (ultra_low_mem_of r) fr)) = []"
    by (simp_all add: map_Print_calls updates_calls load_model_calls_append progress_bars_append
          progress_updates_append recommendation_calls_append del: map_map)
qed

text \<open>The method is its three steps in sequence; a step that raises ends it.\<close>

lemma node_cases:
  obtains (resolve_raises) e evs1 where
      "resolve_memory_mode env [] v mm = (Inl e, evs1)"
      "FL_SongGen_ModelLoader_load_model env v mm fr = (Inl e, evs1)"
  | (banner_raises) r evs1 e evs2 where
      "resolve_memory_mode env [] v mm = (Inr r, evs1)"
      "log_banner env evs1 v r (low_mem_of r) (ultra_low_mem_of r) = (Inl e, evs2)"
      "FL_SongGen_ModelLoader_load_model env v mm fr = (Inl e, evs1 @ evs2)"
  | (loads) r evs1 evs2 where
      "resolve_memory_mode env [] v mm = (Inr r, evs1)"
      "log_banner env evs1 v r (low_mem_of r) (ultra_low_mem_of r) = (Inr (), evs2)"
      "FL_SongGen_ModelLoader_load_model env v mm fr =
         (fst (try_load env (evs1 @ evs2) v (low_mem_of r) (ultra_low_mem_of r) fr),
          evs1 @ evs2 @ snd (try_load env (evs1 @ evs2) v (low_mem_of r) (ultra_low_mem_of r) fr))"
proof (cases "resolve_memory_mode env [] v mm")
  case (Pair a evs1)
  show ?thesis
  proof (cases a)
    case (Inl e)
    with Pair show ?thesis
      by (intro resolve_raises[of e evs1]) (simp_all add: FL_SongGen_ModelLoader_load_model_def)
  next
    case (Inr r)
    show ?thesis
    proof (cases "log_banner env evs1 v r (low_mem_of r) (ultra_low_mem_of r)")
      case (Pair b evs2)
      note P2 = this
      show ?thesis
      proof (cases b)
        case (Inl e)
        with P2 Inr \<open>resolve_memory_mode env [] v mm = (a, evs1)\<close> show ?thesis
          by (intro banner_raises[of r evs1 e evs2]) (simp_all add: FL_SongGen_ModelLoader_load_model_def)
      next
        case (Inr u)
        with P2 \<open>a = Inr r\<close> \<open>resolve_memory_mode env [] v mm = (a, evs1)\<close> show ?thesis
          by (intro loads[of r evs1 evs2]) (simp_all add: FL_SongGen_ModelLoader_load_model_def split: prod.splits)
      qed
    qed
  qed
qed

lemma call_mem: "Call_load_model a \<in> set es \<longleftrightarrow> a \<in> set (load_model_calls es)"
  by (induction es rule: load_model_calls.induct) auto

lemma node_call_args:
  assumes "Call_load_model args \<in> set (snd (FL_SongGen_ModelLoader_load_model env v mm fr))"
  obtains r evs1 evs2 where
      "resolve_memory_mode env [] v mm = (Inr r, evs1)"
      "log_banner env evs1 v r (low_mem_of r) (ultra_low_mem_of r) = (Inr (), evs2)"
      "args = args_for v r fr"
      "FL_SongGen_ModelLoader_load_model env v mm fr =
         (fst (try_load env (evs1 @ evs2) v (low_mem_of r) (ultra_low_mem_of r) fr),
          evs1 @ evs2 @ snd (try_load env (evs1 @ evs2) v (low_mem_of r) (ultra_low_mem_of r) fr))"
proof (cases env v mm fr rule: node_cases)
  case (resolve_raises e evs1)
  have "load_model_calls evs1 = []"
    using resolve_calls(1)[of env "[]" v mm] resolve_raises(1) by simp
  with assms resolve_raises(2) show ?thesis by (simp add: call_mem)
next
  case (banner_raises r evs1 e evs2)
  have "load_model_calls evs1 = []" "load_model_calls evs2 = []"
    using resolve_calls(1)[of env "[]" v mm] banner_calls(1)[of env evs1 v r "low_mem_of r" "ultra_low_mem_of r"]
      banner_raises(1,2) by simp_all
  with assms banner_raises(3) show ?thesis by (simp add: call_mem load_model_calls_append)
next
  case (loads r evs1 evs2)
  have "load_model_calls evs1 = []" "load_model_calls evs2 = []"
    using resolve_calls(1)[of env "[]" v mm] banner_calls(1)[of env evs1 v r "low_mem_of r" "ultra_low_mem_of r"]
      loads(1,2) by simp_all
  with assms loads(3) have "args = args_for v r fr"
    by (simp add: call_mem load_model_calls_append try_load_calls)
  with loads that show ?thesis by blast
qed

text \<open>The outcome of the \<open>try\<close> statement, by the outcome of the collaborator.\<close>

lemma try_load_raises:
  assumes "snd (load_model env (args_for v r fr)) = Inl e"
  shows "try_load env tr v (low_mem_of r) (ultra_low_mem_of r) fr =
           (Inl (fst (except_clauses env
                        (tr @ [ProgressBar_init 4, Call_load_model (args_for v r fr)]
                            @ map Update_absolute (map fst (fst (load_model env (args_for v r fr)))))
                        v e)),
            [ProgressBar_init 4, Call_load_model (args_for v r fr)]
            @ map Update_absolute (map fst (fst (load_model env (args_for v r fr))))
            @ snd (except_clauses env
                        (tr @ [ProgressBar_init 4, Call_load_model (args_for v r fr)]
                            @ map Update_absolute (map fst (fst (load_model env (args_for v r fr)))))
                        v e))"
  using assms unfolding try_load_def Let_def low_or_ultra args_for_def[symmetric] callbacks_updates
  by (simp split: prod.splits)

lemma try_load_returns:
  assumes "snd (load_model env (args_for v r fr)) = Inr model_info"
      and "stdout_write env
             (tr @ [ProgressBar_init 4, Call_load_model (args_for v r fr)]
                 @ map Update_absolute (map fst (fst (load_model env (args_for v r fr)))))
             ''[FL SongGen] Model loaded successfully!'' = None"
  shows "try_load env tr v (low_mem_of r) (ultra_low_mem_of r) fr =
           (Inr [model_info(''ultra_low_mem'' \<mapsto> PyBool (ultra_low_mem_of r))],
            [ProgressBar_init 4, Call_load_model (args_for v r fr)]
            @ map Update_absolute (map fst (fst (load_model env (args_for v r fr))))
            @ [Print ''[FL SongGen] Model loaded successfully!''])"
  using assms unfolding try_load_def Let_def low_or_ultra args_for_def[symmetric] callbacks_updates
  by simp

lemma try_load_returned:
  assumes "fst (try_load env tr v (low_mem_of r) (ultra_low_mem_of r) fr) = Inr result"
  obtains model_info where
      "snd (load_model env (args_for v r fr)) = Inr model_info"
      "result = [model_info(''ultra_low_mem'' \<mapsto> PyBool (ultra_low_mem_of r))]"
proof (cases "snd (load_model env (args_for v r fr))")
  case (Inl e)
  from try_load_raises[OF this, of tr] assms show ?thesis by simp
next
  case (Inr mi)
  let ?tr1 = "tr @ [ProgressBar_init 4, Call_load_model (args_for v r fr)]
                 @ map Update_absolute (map fst (fst (load_model env (args_for v r fr))))"
  show ?thesis
  proof (cases "stdout_write env ?tr1 ''[FL SongGen] Model loaded successfully!''")
    case None
    from try_load_returns[OF Inr None] assms have "result = [mi(''ultra_low_mem'' \<mapsto> PyBool (ultra_low_mem_of r))]"
      by simp
    with Inr that show ?thesis by blast
  next
    case (Some x)
    with Inr have "\<exists>y. fst (try_load env tr v (low_mem_of r) (ultra_low_mem_of r) fr) = Inl y"
      unfolding try_load_def Let_def low_or_ultra args_for_def[symmetric] callbacks_updates
      by (simp split: prod.splits)
    with assms show ?thesis by simp
  qed
qed

text \<open>What leaves the \<open>except\<close> clauses, by the class of the exception that enters.\<close>

lemma except_not_found:
  assumes "isinstance_FileNotFoundError e"
  shows "\<exists>k\<le>length (not_found_hint v).
            snd (except_clauses env tr v e) = map Print (take k (not_found_hint v))
          \<and> (if k = length (not_found_hint v) then fst (except_clauses env tr v e) = e
             else \<exists>x. stdout_write env (tr @ map Print (take k (not_found_hint v)))
                          (not_found_hint v ! k) = Some x
                    \<and> fst (except_clauses env tr v e) = x)"
proof -
  let ?ls = "not_found_hint v"
  from prints_shape[of ?ls env tr] obtain k where k: "k \<le> length ?ls"
      "snd (prints env tr ?ls) = map Print (take k ?ls)"
      "if k = length ?ls then fst (prints env tr ?ls) = Inr ()
         else \<exists>x. stdout_write env (tr @ map Print (take k ?ls)) (?ls ! k) = Some x
                \<and> fst (prints env tr ?ls) = Inl x"
    by blast
  obtain q out where q: "prints env tr ?ls = (q, out)" by (cases "prints env tr ?ls")
  have e: "except_clauses env tr v e = (case q of Inl x \<Rightarrow> (x, out) | Inr u \<Rightarrow> (e, out))"
    using assms q by (simp add: except_clauses_def split: sum.splits)
  show ?thesis
    using k q unfolding e by (intro exI[of _ k]) (auto split: sum.splits if_splits)
qed

lemma except_other:
  assumes "\<not> isinstance_FileNotFoundError e" and "isinstance_Exception e"
  shows "except_clauses env tr v e =
           (case str_exc e of
              Inl x \<Rightarrow> (x, [])
            | Inr m \<Rightarrow>
                (case stdout_write env tr (''[FL SongGen] ERROR loading model: '' @ m) of
                   None \<Rightarrow> (e, [Print (''[FL SongGen] ERROR loading model: '' @ m)])
                 | Some x \<Rightarrow> (x, [])))"
  using assms by (simp add: except_clauses_def split: sum.splits option.splits)

lemma except_base:
  assumes "\<not> isinstance_Exception e"
  shows "except_clauses env tr v e = (e, [])"
proof -
  from assms have "\<not> isinstance_FileNotFoundError e" by (cases e) auto
  with assms show ?thesis by (simp add: except_clauses_def)
qed

text \<open>
  C1 (as amended). Whenever the collaborator \<open>load_model\<close> is called and raises \<open>e\<close>, the
  method raises and returns no value. The trace ends with the call, the progress
  updates and what the handler printed.

  When \<open>e\<close> is a FileNotFoundError the handler prints the hint, which names the expected
  location and the required files, and the method raises \<open>e\<close>; when one of the eight
  writes raises, the hint stops before that line and the method raises what the write
  raised, in place of \<open>e\<close>.

  When \<open>e\<close> is any other instance of \<open>Exception\<close> the handler prints the line
  \<open>[FL SongGen] ERROR loading model: e\<close> and the method raises \<open>e\<close>; when \<open>str(e)\<close> or the
  write raises, nothing is printed and the method raises that exception in place of \<open>e\<close>.

  When \<open>e\<close> derives from \<open>BaseException\<close> only, nothing is printed and the method raises
  \<open>e\<close>.
\<close>

theorem load_model_failure_propagates:
  assumes "Call_load_model args \<in> set (snd (FL_SongGen_ModelLoader_load_model env model_variant memory_mode force_reload))"
      and "snd (load_model env args) = Inl e"
  shows "\<exists>before.
          (isinstance_FileNotFoundError e \<longrightarrow>
             (\<exists>k\<le>length (not_found_hint model_variant).
                 snd (FL_SongGen_ModelLoader_load_model env model_variant memory_mode force_reload) =
                   before @ [Call_load_model args]
                   @ map Update_absolute (map fst (fst (load_model env args)))
                   @ map Print (take k (not_found_hint model_variant))
               \<and> (if k = length (not_found_hint model_variant)
                  then fst (FL_SongGen_ModelLoader_load_model env model_variant memory_mode force_reload) = Inl e
                  else \<exists>x. stdout_write env
                              (snd (FL_SongGen_ModelLoader_load_model env model_variant memory_mode force_reload))
                              (not_found_hint model_variant ! k) = Some x
                         \<and> fst (FL_SongGen_ModelLoader_load_model env model_variant memory_mode force_reload) = Inl x)))
        \<and> (\<not> isinstance_FileNotFoundError e \<and> isinstance_Exception e \<longrightarrow>
             FL_SongGen_ModelLoader_load_model env model_variant memory_mode force_reload =
               (case str_exc e of
                  Inl x \<Rightarrow>
                    (Inl x, before @ [Call_load_model args]
                            @ map Update_absolute (map fst (fst (load_model env args))))
                | Inr m \<Rightarrow>
                    (case stdout_write env
                            (before @ [Call_load_model args]
                             @ map Update_absolute (map fst (fst (load_model env args))))
                            (''[FL SongGen] ERROR loading model: '' @ m) of
                       None \<Rightarrow>
                         (Inl e, before @ [Call_load_model args]
                                 @ map Update_absolute (map fst (fst (load_model env args)))
                                 @ [Print (''[FL SongGen] ERROR loading model: '' @ m)])
                     | Some x \<Rightarrow>
                         (Inl x, before @ [Call_load_model args]
                                 @ map Update_absolute (map fst (fst (load_model env args)))))))
        \<and> (\<not> isinstance_Exception e \<longrightarrow>
             FL_SongGen_ModelLoader_load_model env model_variant memory_mode force_reload =
               (Inl e, before @ [Call_load_model args]
                       @ map Update_absolute (map fst (fst (load_model env args)))))
        \<and> (\<exists>x. fst (FL_SongGen_ModelLoader_load_model env model_variant memory_mode force_reload) = Inl x)
        \<and> nl @ ''Expected location: ComfyUI/models/songgen/'' @ model_variant @ ''/''
            \<in> set (not_found_hint model_variant)
        \<and> ''Required files: config.yaml, model.pt'' \<in> set (not_found_hint model_variant)"
proof -
  let ?node = "FL_SongGen_ModelLoader_load_model env model_variant memory_mode force_reload"
  let ?ups = "map Update_absolute (map fst (fst (load_model env args)))"
  from assms(1) obtain r evs1 evs2 where
      a: "args = args_for model_variant r force_reload"
    and n: "?node =
         (fst (try_load env (evs1 @ evs2) model_variant (low_mem_of r) (ultra_low_mem_of r) force_reload),
          evs1 @ evs2 @ snd (try_load env (evs1 @ evs2) model_variant (low_mem_of r) (ultra_low_mem_of r) force_reload))"
    by (rule node_call_args)
  let ?before = "evs1 @ evs2 @ [ProgressBar_init 4]"
  let ?tr = "?before @ [Call_load_model args] @ ?ups"
  let ?ex = "except_clauses env ?tr model_variant e"
  from assms(2) a have "snd (load_model env (args_for model_variant r force_reload)) = Inl e" by simp
  from try_load_raises[OF this, of "evs1 @ evs2"]
  have node: "?node = (Inl (fst ?ex), ?tr @ snd ?ex)"
    unfolding n a by simp
  have c1: "\<exists>k\<le>length (not_found_hint model_variant).
                 snd ?node = ?before @ [Call_load_model args] @ ?ups
                   @ map Print (take k (not_found_hint model_variant))
               \<and> (if k = length (not_found_hint model_variant)
                  then fst ?node = Inl e
                  else \<exists>x. stdout_write env (snd ?node) (not_found_hint model_variant ! k) = Some x
                         \<and> fst ?node = Inl x)"
    if "isinstance_FileNotFoundError e"
  proof -
    from except_not_found[OF that, of model_variant env ?tr]
    obtain k where k: "k \<le> length (not_found_hint model_variant)"
        "snd ?ex = map Print (take k (not_found_hint model_variant))"
        "if k = length (not_found_hint model_variant) then fst ?ex = e
         else \<exists>x. stdout_write env (?tr @ map Print (take k (not_found_hint model_variant)))
                      (not_found_hint model_variant ! k) = Some x
                \<and> fst ?ex = x"
      by blast
    have s: "snd ?node = ?tr @ map Print (take k (not_found_hint model_variant))"
      unfolding node using k(2) by simp
    show ?thesis
    proof (intro exI[of _ k] conjI)
      show "k \<le> length (not_found_hint model_variant)" by (rule k(1))
      show "snd ?node = ?before @ [Call_load_model args] @ ?ups
                   @ map Print (take k (not_found_hint model_variant))"
        using s by simp
      show "if k = length (not_found_hint model_variant)
                  then fst ?node = Inl e
                  else \<exists>x. stdout_write env (snd ?node) (not_found_hint model_variant ! k) = Some x
                         \<and> fst ?node = Inl x"
        unfolding s using k(3) unfolding node by (simp split: if_splits)
    qed
  qed
  have c2: "?node =
               (case str_exc e of
                  Inl x \<Rightarrow> (Inl x, ?before @ [Call_load_model args] @ ?ups)
                | Inr m \<Rightarrow>
                    (case stdout_write env (?before @ [Call_load_model args] @ ?ups)
                            (''[FL SongGen] ERROR loading model: '' @ m) of
                       None \<Rightarrow>
                         (Inl e, ?before @ [Call_load_model args] @ ?ups
                                 @ [Print (''[FL SongGen] ERROR loading model: '' @ m)])
                     | Some x \<Rightarrow> (Inl x, ?before @ [Call_load_model args] @ ?ups)))"
    if "\<not> isinstance_FileNotFoundError e" "isinstance_Exception e"
    unfolding node except_other[OF that]
    by (simp split: sum.splits option.splits)
  have c3: "?node = (Inl e, ?before @ [Call_load_model args] @ ?ups)"
    if "\<not> isinstance_Exception e"
    unfolding node except_base[OF that] by simp
  have c4: "\<exists>x. fst ?node = Inl x"
    unfolding node by simp
  have c5: "nl @ ''Expected location: ComfyUI/models/songgen/'' @ model_variant @ ''/''
            \<in> set (not_found_hint model_variant)"
    "''Required files: config.yaml, model.pt'' \<in> set (not_found_hint model_variant)"
    by (simp_all add: not_found_hint_def)
  show ?thesis
    using c1 c2 c3 c4 c5 by (intro exI[of _ ?before] conjI impI) blast+
qed

theorem load_model_failure_propagates_witness:
  "Call_load_model (args_for ''songgeneration_base'' ''ultra'' False)
     \<in> set (snd (FL_SongGen_ModelLoader_load_model
                   (sample_env (Inl (Exc FileNotFoundError (Inr ''no model.pt''))))
                   ''songgeneration_base'' ''auto'' False))
   \<and> snd (load_model (sample_env (Inl (Exc FileNotFoundError (Inr ''no model.pt''))))
            (args_for ''songgeneration_base'' ''ultra'' False))
       = Inl (Exc FileNotFoundError (Inr ''no model.pt''))
   \<and> fst (FL_SongGen_ModelLoader_load_model
            (sample_env (Inl (Exc FileNotFoundError (Inr ''no model.pt''))))
            ''songgeneration_base'' ''auto'' False)
       = Inl (Exc FileNotFoundError (Inr ''no model.pt''))
   \<and> printed (snd (FL_SongGen_ModelLoader_load_model
            (sample_env (Inl (Exc RuntimeError (Inr ''out of memory''))))
            ''songgeneration_base'' ''auto'' False))
       = printed (snd (resolve_memory_mode (sample_env (Inl (Exc RuntimeError (Inr ''out of memory''))))
                         [] ''songgeneration_base'' ''auto''))
         @ banner_lines ''songgeneration_base'' base_info ''ultra'' False True
         @ [''[FL SongGen] ERROR loading model: out of memory'']
   \<and> fst (FL_SongGen_ModelLoader_load_model
            (sample_env (Inl (Exc RuntimeError (Inr ''out of memory''))))
            ''songgeneration_base'' ''auto'' False)
       = Inl (Exc RuntimeError (Inr ''out of memory''))"
proof -
  let ?e1 = "Exc FileNotFoundError (Inr ''no model.pt'')"
  let ?e2 = "Exc RuntimeError (Inr ''out of memory'')"
  let ?args = "args_for ''songgeneration_base'' ''ultra'' False"
  have h1: "Call_load_model ?args
     \<in> set (snd (FL_SongGen_ModelLoader_load_model (sample_env (Inl ?e1)) ''songgeneration_base'' ''auto'' False))"
    by (simp add: node_defs args_for_def)
  have h1': "Call_load_model ?args
     \<in> set (snd (FL_SongGen_ModelLoader_load_model (sample_env (Inl ?e2)) ''songgeneration_base'' ''auto'' False))"
    by (simp add: node_defs args_for_def)
  have h2: "snd (load_model (sample_env (Inl e)) ?args) = Inl e" for e
    by (simp add: sample_env_def)
  have w: "stdout_write (sample_env out) tr s = None" for out tr s
    by (simp add: sample_env_def)
  from load_model_failure_propagates[OF h1 h2]
  have r1: "fst (FL_SongGen_ModelLoader_load_model (sample_env (Inl ?e1)) ''songgeneration_base'' ''auto'' False)
              = Inl ?e1"
    by (auto simp: w split: if_splits)
  from load_model_failure_propagates[OF h1' h2]
  obtain before where b: "FL_SongGen_ModelLoader_load_model (sample_env (Inl ?e2)) ''songgeneration_base'' ''auto'' False
        = (Inl ?e2, before @ [Call_load_model ?args]
                 @ map Update_absolute (map fst (fst (load_model (sample_env (Inl ?e2)) ?args)))
                 @ [Print ''[FL SongGen] ERROR loading model: out of memory''])"
    by (auto simp: w)
  have r2: "fst (FL_SongGen_ModelLoader_load_model (sample_env (Inl ?e2)) ''songgeneration_base'' ''auto'' False)
              = Inl ?e2"
    unfolding b by simp
  have p: "printed (snd (FL_SongGen_ModelLoader_load_model (sample_env (Inl ?e2)) ''songgeneration_base'' ''auto'' False))
       = printed (snd (resolve_memory_mode (sample_env (Inl ?e2)) [] ''songgeneration_base'' ''auto''))
         @ banner_lines ''songgeneration_base'' base_info ''ultra'' False True
         @ [''[FL SongGen] ERROR loading model: out of memory'']"
    by (simp add: node_defs)
  from h1 h2[of ?e1] r1 r2 p show ?thesis by blast
qed

text \<open>
  Two invocations that C1 as first stated does not cover. The collaborator raises
  KeyboardInterrupt: the method raises it and logs nothing after the progress updates.
  The collaborator raises a RuntimeError whose message the ASCII standard output cannot
  encode: the method raises the UnicodeEncodeError of the write, not the RuntimeError.
\<close>

theorem load_model_failure_not_as_stated:
  "fst (FL_SongGen_ModelLoader_load_model (sample_env (Inl (Exc KeyboardInterrupt (Inr ''stop''))))
          ''songgeneration_base'' ''normal'' False)
     = Inl (Exc KeyboardInterrupt (Inr ''stop''))
   \<and> snd (FL_SongGen_ModelLoader_load_model (sample_env (Inl (Exc KeyboardInterrupt (Inr ''stop''))))
          ''songgeneration_base'' ''normal'' False)
     = snd (log_banner (sample_env (Inl (Exc KeyboardInterrupt (Inr ''stop''))))
              [] ''songgeneration_base'' ''normal'' False False)
       @ [ProgressBar_init 4,
          Call_load_model (args_for ''songgeneration_base'' ''normal'' False),
          Update_absolute 1,
          Update_absolute 2]
   \<and> load_model_calls (snd (FL_SongGen_ModelLoader_load_model
          ((sample_env (Inl (Exc RuntimeError (Inr (''mod'' @ [CHR 0xE8] @ ''le introuvable'')))))
             \<lparr> stdout_write := ascii_stdout \<rparr>)
          ''songgeneration_base'' ''normal'' False))
     = [args_for ''songgeneration_base'' ''normal'' False]
   \<and> fst (FL_SongGen_ModelLoader_load_model
          ((sample_env (Inl (Exc RuntimeError (Inr (''mod'' @ [CHR 0xE8] @ ''le introuvable'')))))
             \<lparr> stdout_write := ascii_stdout \<rparr>)
          ''songgeneration_base'' ''normal'' False)
     = Inl (Exc (OtherError ''UnicodeEncodeError'') (Inr ''ascii codec cannot encode character''))"
proof -
  have s: "str_int 150 = ''150''" "str_int 2 = ''2''" "str_int 30 = ''30''" "str_int 16 = ''16''"
    by (simp_all add: str_int_def)
  have k: "fst (FL_SongGen_ModelLoader_load_model (sample_env (Inl (Exc KeyboardInterrupt (Inr ''stop''))))
          ''songgeneration_base'' ''normal'' False)
     = Inl (Exc KeyboardInterrupt (Inr ''stop''))
   \<and> snd (FL_SongGen_ModelLoader_load_model (sample_env (Inl (Exc KeyboardInterrupt (Inr ''stop''))))
          ''songgeneration_base'' ''normal'' False)
     = snd (log_banner (sample_env (Inl (Exc KeyboardInterrupt (Inr ''stop''))))
              [] ''songgeneration_base'' ''normal'' False False)
       @ [ProgressBar_init 4,
          Call_load_model (args_for ''songgeneration_base'' ''normal'' False),
          Update_absolute 1,
          Update_absolute 2]"
    by (simp add: node_defs args_for_def)
  let ?env = "(sample_env (Inl (Exc RuntimeError (Inr (''mod'' @ [CHR 0xE8] @ ''le introuvable'')))))
             \<lparr> stdout_write := ascii_stdout \<rparr>"
  have u: "FL_SongGen_ModelLoader_load_model ?env ''songgeneration_base'' ''normal'' False
     = (Inl (Exc (OtherError ''UnicodeEncodeError'') (Inr ''ascii codec cannot encode character'')),
        Call_get_variant_info ''songgeneration_base''
        # map Print (banner_lines ''songgeneration_base'' base_info ''normal'' False False)
        @ [ProgressBar_init 4,
          Call_load_model (args_for ''songgeneration_base'' ''normal'' False),
          Update_absolute 1,
          Update_absolute 2])"
    by (simp add: node_defs args_for_def ascii_stdout_def base_info_def s rule60_def nl_def
          list_ex_iff)
  show ?thesis
    using k unfolding u by (simp add: map_Print_calls load_model_calls_append)
qed

text \<open>
  C2. Every call of the collaborator \<open>load_model\<close> passes \<open>low_mem\<close> true exactly when the
  resolved mode is one of \<open>low\<close>, \<open>low_mem\<close>, \<open>ultra\<close>, \<open>ultra_low_mem\<close> (so it is true
  for \<open>ultra\<close>); a returned model info holds \<open>ultra_low_mem\<close> true exactly when the
  resolved mode is \<open>ultra\<close> or \<open>ultra_low_mem\<close>. Whenever the mode resolves and the
  banner is printed, the collaborator is called once, with these arguments; and when
  it returns a model info and the line of line 149 is written, the method returns that
  model info with \<open>ultra_low_mem\<close> set so.
\<close>

theorem memory_mode_flags:
  "(\<forall>args. Call_load_model args \<in> set (snd (FL_SongGen_ModelLoader_load_model env model_variant memory_mode force_reload))
      \<longrightarrow> (\<exists>resolved_mode. fst (resolve_memory_mode env [] model_variant memory_mode) = Inr resolved_mode
             \<and> arg_low_mem args = (resolved_mode \<in> {''low'', ''low_mem'', ''ultra'', ''ultra_low_mem''})
             \<and> (resolved_mode = ''ultra'' \<longrightarrow> arg_low_mem args)))
   \<and> (\<forall>resolved_mode result.
        fst (resolve_memory_mode env [] model_variant memory_mode) = Inr resolved_mode
        \<and> fst (FL_SongGen_ModelLoader_load_model env model_variant memory_mode force_reload) = Inr result
      \<longrightarrow> (\<exists>model_info. result = [model_info]
             \<and> model_info ''ultra_low_mem'' =
                 Some (PyBool (resolved_mode \<in> {''ultra'', ''ultra_low_mem''}))))
   \<and> (\<forall>resolved_mode evs1 evs2.
        resolve_memory_mode env [] model_variant memory_mode = (Inr resolved_mode, evs1)
        \<and> log_banner env evs1 model_variant resolved_mode
            (low_mem_of resolved_mode) (ultra_low_mem_of resolved_mode) = (Inr (), evs2)
      \<longrightarrow> load_model_calls (snd (FL_SongGen_ModelLoader_load_model env model_variant memory_mode force_reload))
            = [args_for model_variant resolved_mode force_reload]
        \<and> (\<forall>model_info.
              snd (load_model env (args_for model_variant resolved_mode force_reload)) = Inr model_info
              \<and> stdout_write env
                  (evs1 @ evs2
                   @ [ProgressBar_init 4,
                      Call_load_model (args_for model_variant resolved_mode force_reload)]
                   @ map Update_absolute
                       (map fst (fst (load_model env (args_for model_variant resolved_mode force_reload)))))
                  ''[FL SongGen] Model loaded successfully!'' = None
            \<longrightarrow> fst (FL_SongGen_ModelLoader_load_model env model_variant memory_mode force_reload)
                  = Inr [model_info(''ultra_low_mem'' \<mapsto>
                           PyBool (resolved_mode \<in> {''ultra'', ''ultra_low_mem''}))]))"
  (is "?A \<and> ?B \<and> ?C")
proof (intro conjI)
  show ?A
  proof (intro allI impI)
    fix args
    assume "Call_load_model args \<in> set (snd (FL_SongGen_ModelLoader_load_model env model_variant memory_mode force_reload))"
    then obtain r evs1 where "resolve_memory_mode env [] model_variant memory_mode = (Inr r, evs1)"
      "args = args_for model_variant r force_reload"
      by (rule node_call_args)
    then show "\<exists>resolved_mode. fst (resolve_memory_mode env [] model_variant memory_mode) = Inr resolved_mode
             \<and> arg_low_mem args = (resolved_mode \<in> {''low'', ''low_mem'', ''ultra'', ''ultra_low_mem''})
             \<and> (resolved_mode = ''ultra'' \<longrightarrow> arg_low_mem args)"
      by (intro exI[of _ r]) (simp add: args_for_def)
  qed
next
  show ?B
  proof (intro allI impI, elim conjE)
    fix r result
    assume r: "fst (resolve_memory_mode env [] model_variant memory_mode) = Inr r"
      and res: "fst (FL_SongGen_ModelLoader_load_model env model_variant memory_mode force_reload) = Inr result"
    show "\<exists>model_info. result = [model_info]
             \<and> model_info ''ultra_low_mem'' = Some (PyBool (r \<in> {''ultra'', ''ultra_low_mem''}))"
    proof (cases env model_variant memory_mode force_reload rule: node_cases)
      case (resolve_raises e evs1)
      with res show ?thesis by simp
    next
      case (banner_raises r' evs1 e evs2)
      with res show ?thesis by simp
    next
      case (loads r' evs1 evs2)
      with r have [simp]: "r' = r" by simp
      from res loads(3) have "fst (try_load env (evs1 @ evs2) model_variant (low_mem_of r) (ultra_low_mem_of r) force_reload) = Inr result"
        by simp
      then obtain mi where "result = [mi(''ultra_low_mem'' \<mapsto> PyBool (ultra_low_mem_of r))]"
        by (rule try_load_returned)
      then show ?thesis
        by (intro exI[of _ "mi(''ultra_low_mem'' \<mapsto> PyBool (ultra_low_mem_of r))"])
           (auto simp: ultra_low_mem_of_def)
    qed
  qed
next
  show ?C
  proof (intro allI impI, elim conjE)
    fix r evs1 evs2
    assume r: "resolve_memory_mode env [] model_variant memory_mode = (Inr r, evs1)"
      and b: "log_banner env evs1 model_variant r (low_mem_of r) (ultra_low_mem_of r) = (Inr (), evs2)"
    let ?node = "FL_SongGen_ModelLoader_load_model env model_variant memory_mode force_reload"
    let ?t = "try_load env (evs1 @ evs2) model_variant (low_mem_of r) (ultra_low_mem_of r) force_reload"
    have n: "?node = (fst ?t, evs1 @ evs2 @ snd ?t)"
      using r b by (simp add: FL_SongGen_ModelLoader_load_model_def split: prod.splits)
    have z: "load_model_calls evs1 = []" "load_model_calls evs2 = []"
      using resolve_calls(1)[of env "[]" model_variant memory_mode]
        banner_calls(1)[of env evs1 model_variant r "low_mem_of r" "ultra_low_mem_of r"] r b
      by simp_all
    have c: "load_model_calls (snd ?node) = [args_for model_variant r force_reload]"
      unfolding n using z by (simp add: load_model_calls_append try_load_calls)
    have l: "fst ?node = Inr [mi(''ultra_low_mem'' \<mapsto> PyBool (r \<in> {''ultra'', ''ultra_low_mem''}))]"
      if "snd (load_model env (args_for model_variant r force_reload)) = Inr mi"
        and "stdout_write env
                  (evs1 @ evs2
                   @ [ProgressBar_init 4, Call_load_model (args_for model_variant r force_reload)]
                   @ map Update_absolute
                       (map fst (fst (load_model env (args_for model_variant r force_reload)))))
                  ''[FL SongGen] Model loaded successfully!'' = None"
      for mi
    proof -
      from that(2) have "stdout_write env
                  ((evs1 @ evs2)
                   @ [ProgressBar_init 4, Call_load_model (args_for model_variant r force_reload)]
                   @ map Update_absolute
                       (map fst (fst (load_model env (args_for model_variant r force_reload)))))
                  ''[FL SongGen] Model loaded successfully!'' = None"
        by simp
      from try_load_returns[OF that(1) this]
      have "fst ?t = Inr [mi(''ultra_low_mem'' \<mapsto> PyBool (ultra_low_mem_of r))]" by simp
      moreover have "ultra_low_mem_of r = (r \<in> {''ultra'', ''ultra_low_mem''})"
        by (auto simp: ultra_low_mem_of_def)
      ultimately show ?thesis unfolding n by simp
    qed
    from c l show "load_model_calls (snd ?node) = [args_for model_variant r force_reload]
        \<and> (\<forall>model_info.
              snd (load_model env (args_for model_variant r force_reload)) = Inr model_info
              \<and> stdout_write env
                  (evs1 @ evs2
                   @ [ProgressBar_init 4, Call_load_model (args_for model_variant r force_reload)]
                   @ map Update_absolute
                       (map fst (fst (load_model env (args_for model_variant r force_reload)))))
                  ''[FL SongGen] Model loaded successfully!'' = None
            \<longrightarrow> fst ?node
                  = Inr [model_info(''ultra_low_mem'' \<mapsto> PyBool (r \<in> {''ultra'', ''ultra_low_mem''}))])"
      by blast
  qed
qed

theorem memory_mode_flags_witness:
  "resolve_memory_mode (sample_env (Inr base_model)) [] ''songgeneration_base'' ''auto''
     = (Inr ''ultra'',
        [Call_get_recommended_memory_mode ''songgeneration_base'', Call_get_available_vram_gb,
         Print ''[FL SongGen] Auto-detected memory mode: ultra (available VRAM: 7.5GB)''])
   \<and> fst (log_banner (sample_env (Inr base_model))
        [Call_get_recommended_memory_mode ''songgeneration_base'', Call_get_available_vram_gb,
         Print ''[FL SongGen] Auto-detected memory mode: ultra (available VRAM: 7.5GB)'']
        ''songgeneration_base'' ''ultra'' (low_mem_of ''ultra'') (ultra_low_mem_of ''ultra''))
       = Inr ()
   \<and> snd (load_model (sample_env (Inr base_model)) (args_for ''songgeneration_base'' ''ultra'' False))
       = Inr base_model
   \<and> Call_load_model (args_for ''songgeneration_base'' ''ultra'' False)
       \<in> set (snd (FL_SongGen_ModelLoader_load_model (sample_env (Inr base_model))
                     ''songgeneration_base'' ''auto'' False))
   \<and> arg_low_mem (args_for ''songgeneration_base'' ''ultra'' False)
   \<and> load_model_calls (snd (FL_SongGen_ModelLoader_load_model (sample_env (Inr base_model))
                   ''songgeneration_base'' ''auto'' False))
       = [args_for ''songgeneration_base'' ''ultra'' False]
   \<and> fst (FL_SongGen_ModelLoader_load_model (sample_env (Inr base_model))
            ''songgeneration_base'' ''auto'' False)
       = Inr [base_model(''ultra_low_mem'' \<mapsto> PyBool True)]"
proof -
  let ?env = "sample_env (Inr base_model)"
  let ?v = "''songgeneration_base''"
  let ?args = "args_for ?v ''ultra'' False"
  let ?evs1 = "[Call_get_recommended_memory_mode ?v, Call_get_available_vram_gb,
         Print ''[FL SongGen] Auto-detected memory mode: ultra (available VRAM: 7.5GB)'']"
  let ?evs2 = "snd (log_banner ?env ?evs1 ?v ''ultra'' (low_mem_of ''ultra'') (ultra_low_mem_of ''ultra''))"
  have q: "prints ?env tr ls = (Inr (), map Print ls)" for tr ls
    by (rule prints_quiet) (simp add: sample_env_def)
  have h1: "resolve_memory_mode ?env [] ?v ''auto'' = (Inr ''ultra'', ?evs1)"
    by (simp add: resolve_memory_mode_def sample_env_def)
  have h2: "fst (log_banner ?env ?evs1 ?v ''ultra'' (low_mem_of ''ultra'') (ultra_low_mem_of ''ultra'')) = Inr ()"
    unfolding log_banner_def q by (simp add: sample_env_def)
  then have h2': "log_banner ?env ?evs1 ?v ''ultra'' (low_mem_of ''ultra'') (ultra_low_mem_of ''ultra'')
                   = (Inr (), ?evs2)"
    by (simp add: prod_eq_iff)
  have h3: "snd (load_model ?env ?args) = Inr base_model"
    by (simp add: sample_env_def)
  have h4: "stdout_write ?env tr s = None" for tr s
    by (simp add: sample_env_def)
  have h5: "arg_low_mem ?args" by (simp add: args_for_def)
  from memory_mode_flags[of ?env ?v "''auto''" False] h1 h2' h3 h4
  have c: "load_model_calls (snd (FL_SongGen_ModelLoader_load_model ?env ?v ''auto'' False)) = [?args]"
    and r: "fst (FL_SongGen_ModelLoader_load_model ?env ?v ''auto'' False)
              = Inr [base_model(''ultra_low_mem'' \<mapsto> PyBool (''ultra'' \<in> {''ultra'', ''ultra_low_mem''}))]"
    by blast+
  from c have m: "Call_load_model ?args \<in> set (snd (FL_SongGen_ModelLoader_load_model ?env ?v ''auto'' False))"
    by (simp add: call_mem)
  from r have r': "fst (FL_SongGen_ModelLoader_load_model ?env ?v ''auto'' False)
              = Inr [base_model(''ultra_low_mem'' \<mapsto> PyBool True)]"
    by simp
  from h1 h2 h3 m h5 c r' show ?thesis by blast
qed



text \<open>
  C5. A value returned by the method is a tuple of one element: the dict the
  collaborator \<open>load_model\<close> returned, with the key \<open>ultra_low_mem\<close> set and every other
  key as it was. The node declares one output, of type \<open>SONGGEN_MODEL\<close>.
\<close>

theorem returned_model_info:
  assumes "fst (FL_SongGen_ModelLoader_load_model env model_variant memory_mode force_reload) = Inr result"
  shows "\<exists>resolved_mode model_info.
           fst (resolve_memory_mode env [] model_variant memory_mode) = Inr resolved_mode
         \<and> load_model_calls (snd (FL_SongGen_ModelLoader_load_model env model_variant memory_mode force_reload))
             = [args_for model_variant resolved_mode force_reload]
         \<and> snd (load_model env (args_for model_variant resolved_mode force_reload)) = Inr model_info
         \<and> result = [model_info(''ultra_low_mem'' \<mapsto> PyBool (ultra_low_mem_of resolved_mode))]
         \<and> dom (hd result) = insert ''ultra_low_mem'' (dom model_info)
         \<and> (\<forall>k. k \<noteq> ''ultra_low_mem'' \<longrightarrow> hd result k = model_info k)
         \<and> length result = 1
         \<and> RETURN_TYPES = [''SONGGEN_MODEL'']
         \<and> length RETURN_TYPES = length result"
proof (cases env model_variant memory_mode force_reload rule: node_cases)
  case (resolve_raises e evs1)
  with assms show ?thesis by simp
next
  case (banner_raises r evs1 e evs2)
  with assms show ?thesis by simp
next
  case (loads r evs1 evs2)
  from assms loads(3)
  have t: "fst (try_load env (evs1 @ evs2) model_variant (low_mem_of r) (ultra_low_mem_of r) force_reload) = Inr result"
    by simp
  then obtain model_info where
      m: "snd (load_model env (args_for model_variant r force_reload)) = Inr model_info"
    and res: "result = [model_info(''ultra_low_mem'' \<mapsto> PyBool (ultra_low_mem_of r))]"
    by (rule try_load_returned)
  have "load_model_calls evs1 = []" "load_model_calls evs2 = []"
    using resolve_calls(1)[of env "[]" model_variant memory_mode]
      banner_calls(1)[of env evs1 model_variant r "low_mem_of r" "ultra_low_mem_of r"] loads(1,2)
    by simp_all
  then have c: "load_model_calls (snd (FL_SongGen_ModelLoader_load_model env model_variant memory_mode force_reload))
             = [args_for model_variant r force_reload]"
    using loads(3) by (simp add: load_model_calls_append try_load_calls)
  have d: "dom (hd result) = insert ''ultra_low_mem'' (dom model_info)"
    unfolding res by simp
  have k: "\<forall>k. k \<noteq> ''ultra_low_mem'' \<longrightarrow> hd result k = model_info k"
    unfolding res by simp
  have l: "length result = 1" "length RETURN_TYPES = length result"
       "RETURN_TYPES = [''SONGGEN_MODEL'']"
    unfolding res by (simp_all add: RETURN_TYPES_def)
  have f: "fst (resolve_memory_mode env [] model_variant memory_mode) = Inr r"
    using loads(1) by simp
  from f c m res d k l show ?thesis by (intro exI[of _ r] exI[of _ model_info] conjI)
qed

theorem returned_model_info_witness:
  "fst (FL_SongGen_ModelLoader_load_model (sample_env (Inr base_model)) ''songgeneration_base'' ''normal'' True)
     = Inr [base_model(''ultra_low_mem'' \<mapsto> PyBool False)]
   \<and> dom (hd [base_model(''ultra_low_mem'' \<mapsto> PyBool False)])
       = insert ''ultra_low_mem'' (dom base_model)
   \<and> length RETURN_TYPES = length [base_model(''ultra_low_mem'' \<mapsto> PyBool False)]"
proof -
  have h: "fst (FL_SongGen_ModelLoader_load_model (sample_env (Inr base_model)) ''songgeneration_base'' ''normal'' True)
     = Inr [base_model(''ultra_low_mem'' \<mapsto> PyBool False)]"
    by (simp add: node_defs)
  from returned_model_info[OF h] have
    "length RETURN_TYPES = length [base_model(''ultra_low_mem'' \<mapsto> PyBool False)]"
    by (elim exE conjE)
  with h show ?thesis by simp
qed

text \<open>
  C7. Whenever the method reaches the call of the collaborator \<open>load_model\<close>, it has
  built one progress bar, with total 4, just before; every \<open>(current, total)\<close> the
  collaborator reports becomes \<open>update_absolute(current)\<close>, in order, and \<open>total\<close>
  is ignored.
\<close>

theorem progress_bar_plumbing:
  "(\<forall>args. Call_load_model args
              \<in> set (snd (FL_SongGen_ModelLoader_load_model env model_variant memory_mode force_reload))
      \<longrightarrow> progress_bars (snd (FL_SongGen_ModelLoader_load_model env model_variant memory_mode force_reload)) = [4]
        \<and> progress_updates (snd (FL_SongGen_ModelLoader_load_model env model_variant memory_mode force_reload))
            = map fst (fst (load_model env args))
        \<and> (\<exists>before after.
             snd (FL_SongGen_ModelLoader_load_model env model_variant memory_mode force_reload)
               = before @ [ProgressBar_init 4, Call_load_model args]
                 @ concat (map (\<lambda>(current, total'). progress_callback current total')
                               (fst (load_model env args)))
                 @ after))
   \<and> (\<forall>current total'. progress_callback current total' = [Update_absolute current])"
proof (intro conjI allI impI)
  fix args
  assume "Call_load_model args
              \<in> set (snd (FL_SongGen_ModelLoader_load_model env model_variant memory_mode force_reload))"
  then obtain r evs1 evs2 where
      r1: "resolve_memory_mode env [] model_variant memory_mode = (Inr r, evs1)"
    and r2: "log_banner env evs1 model_variant r (low_mem_of r) (ultra_low_mem_of r) = (Inr (), evs2)"
    and a: "args = args_for model_variant r force_reload"
    and n: "FL_SongGen_ModelLoader_load_model env model_variant memory_mode force_reload =
         (fst (try_load env (evs1 @ evs2) model_variant (low_mem_of r) (ultra_low_mem_of r) force_reload),
          evs1 @ evs2 @ snd (try_load env (evs1 @ evs2) model_variant (low_mem_of r) (ultra_low_mem_of r) force_reload))"
    by (rule node_call_args)
  have z: "progress_bars evs1 = []" "progress_bars evs2 = []"
       "progress_updates evs1 = []" "progress_updates evs2 = []"
    using resolve_calls(2,3)[of env "[]" model_variant memory_mode]
      banner_calls(2,3)[of env evs1 model_variant r "low_mem_of r" "ultra_low_mem_of r"] r1 r2
    by simp_all
  show "progress_bars (snd (FL_SongGen_ModelLoader_load_model env model_variant memory_mode force_reload)) = [4]"
    using z n by (simp add: progress_bars_append try_load_calls)
  show "progress_updates (snd (FL_SongGen_ModelLoader_load_model env model_variant memory_mode force_reload))
            = map fst (fst (load_model env args))"
    using z n a by (simp add: progress_updates_append try_load_calls)
  obtain ss where "snd (try_load env (evs1 @ evs2) model_variant (low_mem_of r) (ultra_low_mem_of r) force_reload)
          = [ProgressBar_init 4, Call_load_model args]
            @ map Update_absolute (map fst (fst (load_model env args)))
            @ map Print ss"
    using try_load_out[of env "evs1 @ evs2" model_variant r force_reload] unfolding a by blast
  then show "\<exists>before after.
             snd (FL_SongGen_ModelLoader_load_model env model_variant memory_mode force_reload)
               = before @ [ProgressBar_init 4, Call_load_model args]
                 @ concat (map (\<lambda>(current, total'). progress_callback current total')
                               (fst (load_model env args)))
                 @ after"
    unfolding callbacks_updates n
    by (intro exI[of _ "evs1 @ evs2"] exI[of _ "map Print ss"]) simp
next
  fix current total'
  show "progress_callback current total' = [Update_absolute current]"
    by (simp add: progress_callback_def)
qed

theorem progress_bar_plumbing_witness:
  "Call_load_model (args_for ''songgeneration_base'' ''low'' False)
     \<in> set (snd (FL_SongGen_ModelLoader_load_model (sample_env (Inr base_model))
                   ''songgeneration_base'' ''low'' False))
   \<and> progress_bars (snd (FL_SongGen_ModelLoader_load_model (sample_env (Inr base_model))
                   ''songgeneration_base'' ''low'' False)) = [4]
   \<and> progress_updates (snd (FL_SongGen_ModelLoader_load_model (sample_env (Inr base_model))
                   ''songgeneration_base'' ''low'' False)) = [1, 2]"
proof -
  let ?env = "sample_env (Inr base_model)"
  let ?args = "args_for ''songgeneration_base'' ''low'' False"
  have h1: "Call_load_model ?args
     \<in> set (snd (FL_SongGen_ModelLoader_load_model ?env ''songgeneration_base'' ''low'' False))"
    by (simp add: node_defs args_for_def)
  have h2: "map fst (fst (load_model ?env ?args)) = [1, 2]"
    by (simp add: sample_env_def)
  from progress_bar_plumbing[of ?env "''songgeneration_base''" "''low''" False] h1 h2
  show ?thesis by auto
qed

section \<open>Properties of the fallback of compat.py\<close>

text \<open>
  The loop over the heads, for any mask and any list of heads: it raises IndexError when
  one head lies outside \<open>[-n, n)\<close>, \<open>n\<close> the number of rows, and otherwise zeroes the rows
  the heads name, a negative head counting from the end.
\<close>

lemma zero_rows_char:
  "zero_rows m hs =
     (if \<forall>h\<in>set hs. - int (length m) \<le> h \<and> h < int (length m)
      then Inr (map (\<lambda>i. if int i \<in> (\<lambda>h. if h < 0 then h + int (length m) else h) ` set hs
                          then map (\<lambda>_. False) (m ! i) else m ! i)
                    [0..<length m])
      else Inl (Exc IndexError (Inr ''index is out of bounds for dimension 0'')))"
proof (induction hs arbitrary: m)
  case Nil
  show ?case by (simp add: map_nth)
next
  case (Cons h hs)
  let ?n = "int (length m)"
  let ?w = "\<lambda>h. if h < 0 then h + ?n else h"
  show ?case
  proof (cases "- ?n \<le> h \<and> h < ?n")
    case False
    then have "zero_row m h = Inl (Exc IndexError (Inr ''index is out of bounds for dimension 0''))"
      by (auto simp: zero_row_def Let_def)
    with False show ?thesis by auto
  next
    case True
    let ?j = "nat (?w h)"
    let ?m' = "m[?j := map (\<lambda>_. False) (m ! ?j)]"
    from True have j: "0 \<le> ?w h" "?w h < ?n" by auto
    then have zr: "zero_row m h = Inr ?m'"
      by (auto simp: zero_row_def Let_def)
    have len: "length ?m' = length m" by simp
    have eq: "map (\<lambda>i. if int i \<in> ?w ` set hs then map (\<lambda>_. False) (?m' ! i) else ?m' ! i)
                  [0..<length m]
            = map (\<lambda>i. if int i \<in> ?w ` set (h # hs) then map (\<lambda>_. False) (m ! i) else m ! i)
                  [0..<length m]"
    proof (rule map_cong[OF refl])
      fix i
      assume "i \<in> set [0..<length m]"
      then have i: "i < length m" by simp
      show "(if int i \<in> ?w ` set hs then map (\<lambda>_. False) (?m' ! i) else ?m' ! i)
          = (if int i \<in> ?w ` set (h # hs) then map (\<lambda>_. False) (m ! i) else m ! i)"
      proof (cases "i = ?j")
        case True
        with j have "int i = ?w h" by simp
        then have "int i \<in> ?w ` set (h # hs)" by simp
        with True i show ?thesis by simp
      next
        case False
        with j have "int i \<noteq> ?w h" by auto
        then have "int i \<in> ?w ` set (h # hs) \<longleftrightarrow> int i \<in> ?w ` set hs" by auto
        with False i show ?thesis by simp
      qed
    qed
    show ?thesis
      using True eq by (simp add: zr Cons.IH[of ?m'] del: set_simps)
         (auto simp: eq)
  qed
qed

text \<open>
  So the order in which the loop visits the set of heads does not matter, and neither
  does a head visited twice.
\<close>

lemma zero_rows_set:
  assumes "set hs = set hs'"
  shows "zero_rows m hs = zero_rows m hs'"
  unfolding zero_rows_char assms ..

lemma heads_to_prune_set:
  "set (heads_to_prune_list heads already) = set heads - already"
  by (auto simp: heads_to_prune_list_def)

text \<open>The flattened mask of \<open>n\<close> rows of \<open>d\<close> entries whose rows in \<open>W\<close> are zeroed.\<close>

lemma ones_zeroed:
  "map (\<lambda>i. if int i \<in> W then map (\<lambda>_. False) (replicate n (replicate d True) ! i)
             else replicate n (replicate d True) ! i)
       [0..<length (replicate n (replicate d True))]
   = map (\<lambda>i. replicate d (int i \<notin> W)) [0..<n]"
  by (rule map_cong) (simp_all add: map_replicate_const)

lemma length_concat_rows:
  "length (concat (map (\<lambda>i. replicate d (int i \<notin> W)) [0..<n])) = n * d"
  by (induction n) simp_all

lemma concat_rows_nth:
  "k < n * d \<Longrightarrow> concat (map (\<lambda>i. replicate d (int i \<notin> W)) [0..<n]) ! k = (int (k div d) \<notin> W)"
proof (induction n)
  case 0
  then show ?case by simp
next
  case (Suc n)
  have c: "concat (map (\<lambda>i. replicate d (int i \<notin> W)) [0..<Suc n])
             = concat (map (\<lambda>i. replicate d (int i \<notin> W)) [0..<n]) @ replicate d (int n \<notin> W)"
    by simp
  show ?case
  proof (cases "k < n * d")
    case True
    with Suc.IH show ?thesis unfolding c by (simp add: nth_append length_concat_rows)
  next
    case False
    with Suc.prems have r: "k - n * d < d" by simp
    from False Suc.prems have "n * d \<le> k" "k < n * d + d" by simp_all
    then have "k div d = n"
      by (intro div_nat_eqI) (simp_all add: mult.commute)
    with False r show ?thesis unfolding c by (simp add: nth_append length_concat_rows)
  qed
qed

lemma masked_arange_rows:
  "masked_arange (concat (map (\<lambda>i. replicate d (int i \<notin> W)) [0..<n]))
     = map int (filter (\<lambda>k. int (k div d) \<notin> W) [0..<n * d])"
  unfolding masked_arange_def length_concat_rows
  by (rule arg_cong[where f = "map int"], rule filter_cong) (simp_all add: concat_rows_nth)

lemma length_kept:
  "length (filter (\<lambda>k. int (k div d) \<notin> W) [0..<n * d])
     = (n - card {h \<in> W. 0 \<le> h \<and> h < int n}) * d"
proof (induction n)
  case 0
  then show ?case by simp
next
  case (Suc n)
  have split: "[0..<Suc n * d] = [0..<n * d] @ [n * d..<n * d + d]"
    by (metis add.commute mult_Suc upt_add_eq_append zero_le)
  have blk: "filter (\<lambda>k. int (k div d) \<notin> W) [n * d..<n * d + d]
               = (if int n \<in> W then [] else [n * d..<n * d + d])"
  proof -
    have "\<forall>i\<in>set [n * d..<n * d + d]. i div d = n"
      by (auto intro!: div_nat_eqI simp: mult.commute)
    then show ?thesis by (auto simp: filter_empty_conv filter_id_conv)
  qed
  let ?A = "{h \<in> W. 0 \<le> h \<and> h < int n}"
  let ?B = "{h \<in> W. 0 \<le> h \<and> h < int (Suc n)}"
  have fin: "finite ?A"
    by (rule finite_subset[of _ "{0..<int n}"]) auto
  have le: "card ?A \<le> n"
  proof -
    have "card ?A \<le> card {0..<int n}" by (rule card_mono) auto
    then show ?thesis by simp
  qed
  have notin: "int n \<notin> ?A" by simp
  have L: "length (filter (\<lambda>k. int (k div d) \<notin> W) [0..<Suc n * d])
             = (n - card ?A) * d + (if int n \<in> W then 0 else d)"
    unfolding split filter_append length_append blk Suc.IH by simp
  show ?case
  proof (cases "int n \<in> W")
    case True
    then have "?B = insert (int n) ?A" by auto
    then have "card ?B = Suc (card ?A)"
      using card_insert_disjoint[OF fin notin] by simp
    with True show ?thesis unfolding L by simp
  next
    case False
    have "?B = ?A"
    proof (rule set_eqI)
      fix x
      from False have "x \<in> W \<Longrightarrow> x \<noteq> int n" by auto
      then show "x \<in> ?B \<longleftrightarrow> x \<in> ?A" by auto
    qed
    then have "card ?B = card ?A" by (simp only:)
    with False le show ?thesis unfolding L by (simp add: Suc_diff_le)
  qed
qed

text \<open>The fallback on every input.\<close>

lemma find_pruneable_heads_and_indices_char:
  "find_pruneable_heads_and_indices heads n_heads head_dim already_pruned_heads =
     (if n_heads < 0 \<or> head_dim < 0
      then Inl (Exc RuntimeError (Inr ''Trying to create tensor with negative dimension''))
      else if \<exists>h\<in>set heads - already_pruned_heads. h < - n_heads \<or> n_heads \<le> h
      then Inl (Exc IndexError (Inr ''index is out of bounds for dimension 0''))
      else Inr (set heads - already_pruned_heads,
                map int (filter (\<lambda>k. int (k div nat head_dim)
                                        \<notin> (\<lambda>h. if h < 0 then h + n_heads else h)
                                            ` (set heads - already_pruned_heads))
                                [0..<nat n_heads * nat head_dim])))"
proof (cases "n_heads < 0 \<or> head_dim < 0")
  case True
  then show ?thesis by (simp add: find_pruneable_heads_and_indices_def torch_ones_def)
next
  case False
  let ?S = "set heads - already_pruned_heads"
  let ?hs = "heads_to_prune_list heads already_pruned_heads"
  let ?m = "replicate (nat n_heads) (replicate (nat head_dim) True)"
  from False have n: "int (length ?m) = n_heads" by simp
  have t: "torch_ones n_heads head_dim = Inr ?m"
    using False by (simp add: torch_ones_def)
  show ?thesis
  proof (cases "\<exists>h\<in>?S. h < - n_heads \<or> n_heads \<le> h")
    case True
    then obtain h where "h \<in> ?S" "h < - n_heads \<or> n_heads \<le> h" by blast
    then have "\<not> (\<forall>h\<in>?S. - n_heads \<le> h \<and> h < n_heads)"
      by (intro notI) (drule bspec[of _ _ h], auto)
    then have bad: "\<not> (\<forall>h\<in>set ?hs. - int (length ?m) \<le> h \<and> h < int (length ?m))"
      unfolding n heads_to_prune_set .
    have "zero_rows ?m ?hs = Inl (Exc IndexError (Inr ''index is out of bounds for dimension 0''))"
      by (subst zero_rows_char) (rule if_not_P[OF bad])
    with False True show ?thesis
      by (simp add: find_pruneable_heads_and_indices_def t)
  next
    case ok: False
    have "\<forall>h\<in>?S. - n_heads \<le> h \<and> h < n_heads"
    proof
      fix h assume "h \<in> ?S"
      with ok have "\<not> (h < - n_heads \<or> n_heads \<le> h)" by blast
      then show "- n_heads \<le> h \<and> h < n_heads" by linarith
    qed
    then have good: "\<forall>h\<in>set ?hs. - int (length ?m) \<le> h \<and> h < int (length ?m)"
      unfolding n heads_to_prune_set .
    have "zero_rows ?m ?hs
        = Inr (map (\<lambda>i. if int i \<in> (\<lambda>h. if h < 0 then h + int (length ?m) else h) ` set ?hs
                          then map (\<lambda>_. False) (?m ! i) else ?m ! i)
                    [0..<length ?m])"
      by (subst zero_rows_char) (rule if_P[OF good])
    also have "\<dots> = Inr (map (\<lambda>i. replicate (nat head_dim)
                                   (int i \<notin> (\<lambda>h. if h < 0 then h + n_heads else h) ` ?S))
                              [0..<nat n_heads])"
      unfolding n heads_to_prune_set ones_zeroed ..
    finally have z: "zero_rows ?m ?hs
        = Inr (map (\<lambda>i. replicate (nat head_dim)
                                   (int i \<notin> (\<lambda>h. if h < 0 then h + n_heads else h) ` ?S))
                              [0..<nat n_heads])" .
    have f: "find_pruneable_heads_and_indices heads n_heads head_dim already_pruned_heads
               = (case zero_rows ?m ?hs of
                    Inl e \<Rightarrow> Inl e
                  | Inr mask1 \<Rightarrow> Inr (set ?hs, masked_arange (concat mask1)))"
      by (simp add: find_pruneable_heads_and_indices_def t Let_def)
    show ?thesis
      unfolding f z sum.case masked_arange_rows heads_to_prune_set
      by (subst if_not_P[OF False], subst if_not_P[OF ok], rule refl)
  qed
qed

text \<open>
  C6 (as amended). \<open>get_find_pruneable_heads_and_indices\<close> returns the imported function
  when the import succeeds and the fallback when the import raises ImportError; another
  exception of the import leaves the function. For \<open>n_heads\<close> and \<open>head_dim\<close> not negative
  and every head of \<open>set(heads) - already_pruned_heads\<close> in \<open>[0, n_heads)\<close>, the fallback
  returns that set with an index that lists, in increasing order, exactly the positions
  \<open>k\<close> of \<open>[0, n_heads * head_dim)\<close> whose head \<open>k div head_dim\<close> is not in the set; its
  length is \<open>(n_heads - |set(heads) - already_pruned_heads|) * head_dim\<close>.
\<close>

theorem fallback_find_pruneable_heads_and_indices:
  "get_find_pruneable_heads_and_indices (Inr imported) = Inr imported
   \<and> (\<forall>e. isinstance_ImportError e \<longrightarrow>
          get_find_pruneable_heads_and_indices (Inl e) = Inr find_pruneable_heads_and_indices)
   \<and> (\<forall>e. \<not> isinstance_ImportError e \<longrightarrow> get_find_pruneable_heads_and_indices (Inl e) = Inl e)
   \<and> (0 \<le> n_heads \<and> 0 \<le> head_dim
        \<and> (\<forall>h\<in>set heads - already_pruned_heads. 0 \<le> h \<and> h < n_heads) \<longrightarrow>
        (\<exists>index.
            find_pruneable_heads_and_indices heads n_heads head_dim already_pruned_heads
              = Inr (set heads - already_pruned_heads, index)
          \<and> sorted_wrt (<) index
          \<and> set index = {k. 0 \<le> k \<and> k < n_heads * head_dim
                          \<and> k div head_dim \<notin> set heads - already_pruned_heads}
          \<and> int (length index)
              = (n_heads - int (card (set heads - already_pruned_heads))) * head_dim))"
proof (intro conjI allI impI)
  show "get_find_pruneable_heads_and_indices (Inr imported) = Inr imported"
    by (simp add: get_find_pruneable_heads_and_indices_def)
next
  fix e assume "isinstance_ImportError e"
  then show "get_find_pruneable_heads_and_indices (Inl e) = Inr find_pruneable_heads_and_indices"
    by (simp add: get_find_pruneable_heads_and_indices_def)
next
  fix e assume "\<not> isinstance_ImportError e"
  then show "get_find_pruneable_heads_and_indices (Inl e) = Inl e"
    by (simp add: get_find_pruneable_heads_and_indices_def)
next
  let ?S = "set heads - already_pruned_heads"
  let ?n = "nat n_heads" and ?d = "nat head_dim"
  let ?ks = "filter (\<lambda>k. int (k div ?d) \<notin> ?S) [0..<?n * ?d]"
  assume a: "0 \<le> n_heads \<and> 0 \<le> head_dim \<and> (\<forall>h\<in>?S. 0 \<le> h \<and> h < n_heads)"
  have "\<forall>h\<in>?S. (if h < 0 then h + n_heads else h) = h"
  proof
    fix h assume "h \<in> ?S"
    with a have "0 \<le> h" by blast
    then show "(if h < 0 then h + n_heads else h) = h" by simp
  qed
  then have "(\<lambda>h. if h < 0 then h + n_heads else h) ` ?S = (\<lambda>h. h) ` ?S"
    by (intro image_cong refl) blast
  then have w: "(\<lambda>h. if h < 0 then h + n_heads else h) ` ?S = ?S"
    by (simp only: image_ident)
  have nn: "\<not> (n_heads < 0 \<or> head_dim < 0)"
    using a by linarith
  have nb: "\<not> (\<exists>h\<in>?S. h < - n_heads \<or> n_heads \<le> h)"
  proof
    assume "\<exists>h\<in>?S. h < - n_heads \<or> n_heads \<le> h"
    then obtain h where h: "h \<in> ?S" "h < - n_heads \<or> n_heads \<le> h" by blast
    from a h(1) have "0 \<le> h \<and> h < n_heads" by blast
    with h(2) a show False by linarith
  qed
  have r: "find_pruneable_heads_and_indices heads n_heads head_dim already_pruned_heads
             = Inr (?S, map int ?ks)"
    unfolding find_pruneable_heads_and_indices_char w
    by (subst if_not_P[OF nn], subst if_not_P[OF nb], rule refl)
  have s: "sorted_wrt (<) (map int ?ks)"
    unfolding sorted_wrt_map by (rule sorted_wrt_filter) simp
  have nd: "int (?n * ?d) = n_heads * head_dim"
    using a by (simp add: nat_mult_distrib)
  have m: "set (map int ?ks) = {k. 0 \<le> k \<and> k < n_heads * head_dim \<and> k div head_dim \<notin> ?S}"
  proof (rule set_eqI)
    fix k :: int
    show "k \<in> set (map int ?ks) \<longleftrightarrow> k \<in> {k. 0 \<le> k \<and> k < n_heads * head_dim \<and> k div head_dim \<notin> ?S}"
    proof
      assume "k \<in> set (map int ?ks)"
      then obtain j where j: "k = int j" "j < ?n * ?d" "int (j div ?d) \<notin> ?S" by auto
      from j(2) have "int j < n_heads * head_dim" using nd by linarith
      moreover have "int (j div ?d) = int j div head_dim"
        using a by (simp add: zdiv_int)
      ultimately show "k \<in> {k. 0 \<le> k \<and> k < n_heads * head_dim \<and> k div head_dim \<notin> ?S}"
        using j by simp
    next
      assume "k \<in> {k. 0 \<le> k \<and> k < n_heads * head_dim \<and> k div head_dim \<notin> ?S}"
      then have k: "0 \<le> k" "k < n_heads * head_dim" "k div head_dim \<notin> ?S" by simp_all
      from k(1,2) have "nat k < ?n * ?d" using nd by linarith
      moreover have "int (nat k div ?d) = k div head_dim"
        using a k(1) by (simp add: zdiv_int)
      ultimately have "nat k \<in> set ?ks" using k(3) by simp
      then have "int (nat k) \<in> int ` set ?ks" by (rule imageI)
      then have "int (nat k) \<in> set (map int ?ks)" by (simp only: set_map)
      with k(1) show "k \<in> set (map int ?ks)" by simp
    qed
  qed
  have c: "{h \<in> ?S. 0 \<le> h \<and> h < int ?n} = ?S"
    using a by auto
  have fin: "finite ?S" by simp
  have "card ?S \<le> card {0..<n_heads}"
    by (rule card_mono) (use a in auto)
  then have le: "card ?S \<le> ?n" by simp
  have "length ?ks = (?n - card ?S) * ?d"
    using length_kept[of ?d ?S ?n] unfolding c .
  then have "int (length (map int ?ks)) = int ((?n - card ?S) * ?d)"
    by (simp only: length_map)
  also have "\<dots> = (n_heads - int (card ?S)) * head_dim"
    using a le by (simp add: of_nat_diff)
  finally have l: "int (length (map int ?ks)) = (n_heads - int (card ?S)) * head_dim" .
  from r s m l show "\<exists>index.
            find_pruneable_heads_and_indices heads n_heads head_dim already_pruned_heads
              = Inr (?S, index)
          \<and> sorted_wrt (<) index
          \<and> set index = {k. 0 \<le> k \<and> k < n_heads * head_dim \<and> k div head_dim \<notin> ?S}
          \<and> int (length index) = (n_heads - int (card ?S)) * head_dim"
    by (intro exI[of _ "map int ?ks"] conjI)
qed

theorem fallback_find_pruneable_heads_and_indices_witness:
  "isinstance_ImportError (Exc ImportError (Inr ''cannot import name''))
   \<and> get_find_pruneable_heads_and_indices (Inl (Exc ImportError (Inr ''cannot import name'')))
       = Inr find_pruneable_heads_and_indices
   \<and> 0 \<le> (4 :: int) \<and> 0 \<le> (2 :: int)
   \<and> set [0, 2, 2] - {0} = {2 :: int} \<and> 0 \<le> (2 :: int) \<and> (2 :: int) < 4
   \<and> find_pruneable_heads_and_indices [0, 2, 2] 4 2 {0} = Inr ({2}, [0, 1, 2, 3, 6, 7])
   \<and> (\<exists>index. find_pruneable_heads_and_indices [0, 2, 2] 4 2 {0} = Inr ({2}, index)
         \<and> int (length index) = 6)"
proof -
  have h: "(\<forall>h\<in>set [0, 2, 2] - {0}. 0 \<le> h \<and> h < (4 :: int))" by simp
  have s: "set [0, 2, 2] - {0} = {2 :: int}" by auto
  have i: "isinstance_ImportError (Exc ImportError (Inr ''cannot import name''))" by simp
  have v: "find_pruneable_heads_and_indices [0, 2, 2] 4 2 {0} = Inr ({2}, [0, 1, 2, 3, 6, 7])"
    by code_simp
  note t = fallback_find_pruneable_heads_and_indices[of undefined 4 2 "[0, 2, 2]" "{0}"]
  from t have "\<forall>e. isinstance_ImportError e \<longrightarrow>
          get_find_pruneable_heads_and_indices (Inl e) = Inr find_pruneable_heads_and_indices"
    by (elim conjE)
  with i have g: "get_find_pruneable_heads_and_indices (Inl (Exc ImportError (Inr ''cannot import name'')))
       = Inr find_pruneable_heads_and_indices"
    by (elim allE impE)
  have p: "0 \<le> (4 :: int) \<and> 0 \<le> (2 :: int) \<and> (\<forall>h\<in>set [0, 2, 2] - {0}. 0 \<le> h \<and> h < (4 :: int))"
    by (intro conjI h) simp_all
  from t[THEN conjunct2, THEN conjunct2, THEN conjunct2, THEN mp, OF p]
  obtain index where c:
      "find_pruneable_heads_and_indices [0, 2, 2] 4 2 {0} = Inr (set [0, 2, 2] - {0}, index)
       \<and> sorted_wrt (<) index
       \<and> set index = {k. 0 \<le> k \<and> k < 4 * 2 \<and> k div 2 \<notin> set [0, 2, 2] - {0}}
       \<and> int (length index) = (4 - int (card (set [0, 2, 2] - {0 :: int}))) * 2" ..
  note x = c[THEN conjunct1] and y = c[THEN conjunct2, THEN conjunct2, THEN conjunct2]
  have e: "\<exists>index. find_pruneable_heads_and_indices [0, 2, 2] 4 2 {0} = Inr ({2}, index)
         \<and> int (length index) = 6"
    using x y unfolding s by (intro exI[of _ index]) simp
  show ?thesis
    by (intro conjI i g s v e) simp_all
qed

text \<open>
  Inputs that C6 as first stated does not cover. A negative head counts from the end:
  with two heads of one entry, pruning head \<open>-1\<close> drops position 1, which belongs to
  head 1, a head that is not in the returned set. A head beyond \<open>n_heads\<close> raises
  IndexError and a negative \<open>n_heads\<close> or \<open>head_dim\<close> raises RuntimeError, so no pair is
  returned. An import that raises another exception than ImportError gives no fallback.
\<close>

theorem fallback_not_as_stated:
  "find_pruneable_heads_and_indices [-1] 2 1 {} = Inr ({-1}, [0])
   \<and> find_pruneable_heads_and_indices [-1, 1] 2 1 {} = Inr ({-1, 1}, [0])
   \<and> find_pruneable_heads_and_indices [2] 2 1 {}
       = Inl (Exc IndexError (Inr ''index is out of bounds for dimension 0''))
   \<and> find_pruneable_heads_and_indices [] (-1) 1 {}
       = Inl (Exc RuntimeError (Inr ''Trying to create tensor with negative dimension''))
   \<and> find_pruneable_heads_and_indices [] 1 (-1) {}
       = Inl (Exc RuntimeError (Inr ''Trying to create tensor with negative dimension''))
   \<and> get_find_pruneable_heads_and_indices (Inl (Exc RuntimeError (Inr ''Failed to import'')))
       = Inl (Exc RuntimeError (Inr ''Failed to import''))"
proof (intro conjI)
  show "find_pruneable_heads_and_indices [-1] 2 1 {} = Inr ({-1}, [0])"
    by code_simp
  show "find_pruneable_heads_and_indices [-1, 1] 2 1 {} = Inr ({-1, 1}, [0])"
    by code_simp
  show "find_pruneable_heads_and_indices [2] 2 1 {}
       = Inl (Exc IndexError (Inr ''index is out of bounds for dimension 0''))"
    by code_simp
  show "find_pruneable_heads_and_indices [] (-1) 1 {}
       = Inl (Exc RuntimeError (Inr ''Trying to create tensor with negative dimension''))"
    by (simp add: find_pruneable_heads_and_indices_def torch_ones_def)
  show "find_pruneable_heads_and_indices [] 1 (-1) {}
       = Inl (Exc RuntimeError (Inr ''Trying to create tensor with negative dimension''))"
    by (simp add: find_pruneable_heads_and_indices_def torch_ones_def)
  show "get_find_pruneable_heads_and_indices (Inl (Exc RuntimeError (Inr ''Failed to import'')))
       = Inl (Exc RuntimeError (Inr ''Failed to import''))"
    by (simp add: get_find_pruneable_heads_and_indices_def)
qed

section \<open>Properties of paths.py\<close>

text \<open>
  The loop of \<open>setup_bundled_imports\<close> puts in front of \<open>sys.path\<close>, once each, the
  candidates that exist and are not in \<open>sys.path\<close> yet, and keeps \<open>sys.path\<close> behind them.
\<close>

lemma add_paths_char:
  "\<exists>added. add_paths fs ps sys_path = added @ sys_path
      \<and> distinct added
      \<and> set added = {p \<in> set ps. p \<notin> set sys_path \<and> exists_path fs (path_of p)}"
proof (induction ps arbitrary: sys_path)
  case Nil
  show ?case by simp
next
  case (Cons p ps)
  show ?case
  proof (cases "p \<notin> set sys_path \<and> exists_path fs (path_of p)")
    case True
    from Cons[of "p # sys_path"] obtain added where a:
        "add_paths fs ps (p # sys_path) = added @ p # sys_path" "distinct added"
        "set added = {q \<in> set ps. q \<notin> set (p # sys_path) \<and> exists_path fs (path_of q)}"
      by blast
    from a(3) have "p \<notin> set added" by simp
    with a True show ?thesis
      by (intro exI[of _ "added @ [p]"]) auto
  next
    case False
    from Cons[of sys_path] obtain added where a:
        "add_paths fs ps sys_path = added @ sys_path" "distinct added"
        "set added = {q \<in> set ps. q \<notin> set sys_path \<and> exists_path fs (path_of q)}"
      by blast
    with False show ?thesis
      by (intro exI[of _ added]) auto
  qed
qed

lemma add_paths_nothing:
  assumes "\<And>p. p \<in> set ps \<Longrightarrow> p \<in> set sys_path \<or> \<not> exists_path fs (path_of p)"
  shows "add_paths fs ps sys_path = sys_path"
  using assms by (induction ps) auto

lemma add_paths_idem: "add_paths fs ps (add_paths fs ps sys_path) = add_paths fs ps sys_path"
proof (rule add_paths_nothing)
  fix p assume p: "p \<in> set ps"
  obtain added where a: "add_paths fs ps sys_path = added @ sys_path"
      "set added = {p \<in> set ps. p \<notin> set sys_path \<and> exists_path fs (path_of p)}"
    using add_paths_char[of fs ps sys_path] by blast
  show "p \<in> set (add_paths fs ps sys_path) \<or> \<not> exists_path fs (path_of p)"
    unfolding a(1) using a(2) p by auto
qed

text \<open>
  C9. Running \<open>setup_bundled_imports\<close> a second time, on the same file system, changes
  nothing. One run returns
  \<open>sys.path\<close> with new entries in front and nothing removed: the new entries are, once
  each, the candidates of \<open>paths_to_add\<close> that exist in the file system and were not in
  \<open>sys.path\<close>.
\<close>

theorem setup_bundled_imports_idempotent:
  "setup_bundled_imports module_file fs (setup_bundled_imports module_file fs sys_path)
     = setup_bundled_imports module_file fs sys_path
   \<and> (\<exists>added. setup_bundled_imports module_file fs sys_path = added @ sys_path
         \<and> distinct added
         \<and> set added = {p \<in> set (paths_to_add module_file).
                          p \<notin> set sys_path \<and> exists_path fs (path_of p)})"
  unfolding setup_bundled_imports_def
  using add_paths_idem[of fs "paths_to_add module_file" sys_path]
        add_paths_char[of fs "paths_to_add module_file" sys_path]
  by (intro conjI)

theorem setup_bundled_imports_idempotent_witness:
  "setup_bundled_imports sample_module_file installed_fs [''/usr/lib/python3'']
     = [''/ComfyUI/custom_nodes/ComfyUI_FL-SongGen/codeclm'',
        ''/ComfyUI/custom_nodes/ComfyUI_FL-SongGen'',
        ''/usr/lib/python3'']
   \<and> setup_bundled_imports sample_module_file installed_fs
        [''/ComfyUI/custom_nodes/ComfyUI_FL-SongGen/codeclm'',
         ''/ComfyUI/custom_nodes/ComfyUI_FL-SongGen'',
         ''/usr/lib/python3'']
     = [''/ComfyUI/custom_nodes/ComfyUI_FL-SongGen/codeclm'',
        ''/ComfyUI/custom_nodes/ComfyUI_FL-SongGen'',
        ''/usr/lib/python3'']"
proof -
  have v: "setup_bundled_imports sample_module_file installed_fs [''/usr/lib/python3'']
     = [''/ComfyUI/custom_nodes/ComfyUI_FL-SongGen/codeclm'',
        ''/ComfyUI/custom_nodes/ComfyUI_FL-SongGen'',
        ''/usr/lib/python3'']"
    by code_simp
  from setup_bundled_imports_idempotent[of sample_module_file installed_fs "[''/usr/lib/python3'']"]
  have "setup_bundled_imports sample_module_file installed_fs
          (setup_bundled_imports sample_module_file installed_fs [''/usr/lib/python3''])
        = setup_bundled_imports sample_module_file installed_fs [''/usr/lib/python3'']"
    by (rule conjunct1)
  then show ?thesis unfolding v using v by simp
qed

end
